theory Spec2Isabelle
  imports Complex_Main "HOL-Library.AList"
begin

section \<open>Number model\<close>

text \<open>
  The arena code computes with JavaScript numbers. They are modelled as mathematical
  reals: \<open>Math.sqrt\<close>, \<open>Math.cos\<close>, \<open>Math.sin\<close>, \<open>Math.abs\<close>, \<open>Math.max\<close>,
  \<open>Math.min\<close> are \<^const>\<open>sqrt\<close>, \<^const>\<open>cos\<close>, \<^const>\<open>sin\<close>, \<open>abs\<close>,
  \<^const>\<open>max\<close>, \<^const>\<open>min\<close>, and \<open>Math.round\<close> (round half up) is
  \<^const>\<open>round\<close>, which is \<open>\<lfloor>x + 1/2\<rfloor>\<close>. Rounding error, NaN and infinities of
  IEEE doubles are outside this model. Values drawn from \<open>Math.random()\<close> and
  \<open>Date.now()\<close> are explicit arguments of the functions that draw them.

  Rounding decides one thing that the reals cannot show: whether the two angle
  normalisation loops of car.ts end. On reals they always do. On doubles the step
  \<open>a -= 2 * Math.PI\<close> rounds its result, and where neighbouring doubles are more than
  \<open>4\<pi>\<close> apart the result rounds back to \<open>a\<close>. The loops are therefore given twice:
  on reals (\<open>wrapDown\<close>, \<open>wrapUp\<close>), for every statement about the values computed,
  and on doubles with the rounding of each step written out (\<open>wrapDownDouble\<close>,
  \<open>wrapUpDouble\<close>), where a loop that does not end has the value \<open>None\<close>.
\<close>

section \<open>Constants (constants.ts)\<close>

definition CANVAS_WIDTH :: real where "CANVAS_WIDTH = 900"
definition CANVAS_HEIGHT :: real where "CANVAS_HEIGHT = 600"
definition WORLD_WIDTH :: real where "WORLD_WIDTH = 2700"
definition WORLD_HEIGHT :: real where "WORLD_HEIGHT = 1800"
definition CAR_WIDTH :: real where "CAR_WIDTH = 50"
definition CAR_HEIGHT :: real where "CAR_HEIGHT = 30"
definition WALL_THICKNESS :: real where "WALL_THICKNESS = 20"
definition SCROLL_THRESHOLD :: real where "SCROLL_THRESHOLD = 35 / 100"
definition ACCELERATION :: real where "ACCELERATION = 15 / 100"
definition BRAKE_DECEL :: real where "BRAKE_DECEL = 1 / 10"
definition MAX_SPEED :: real where "MAX_SPEED = 8"
definition TURN_RATE :: real where "TURN_RATE = 25 / 1000"
definition FORWARD_FRICTION :: real where "FORWARD_FRICTION = 98 / 100"
definition SIDEWAYS_FRICTION :: real where "SIDEWAYS_FRICTION = 85 / 100"
definition ANGULAR_FRICTION :: real where "ANGULAR_FRICTION = 85 / 100"
definition BOUNCE_FACTOR :: real where "BOUNCE_FACTOR = 1 / 2"
definition COLLISION_DAMPING :: real where "COLLISION_DAMPING = 7 / 10"
definition MIN_SPEED_TO_TURN :: real where "MIN_SPEED_TO_TURN = 1 / 2"
definition MAX_ANGULAR_VEL :: real where "MAX_ANGULAR_VEL = 8 / 100"
definition DAMAGE_MULTIPLIER :: real where "DAMAGE_MULTIPLIER = 3"
definition MIN_IMPACT_FOR_DAMAGE :: real where "MIN_IMPACT_FOR_DAMAGE = 2"
definition ATTACKER_DAMAGE_RATIO :: real where "ATTACKER_DAMAGE_RATIO = 15 / 100"

text \<open>\<open>INTERPOLATION_FACTOR\<close> of useMultiplayer.ts.\<close>

definition INTERPOLATION_FACTOR :: real where "INTERPOLATION_FACTOR = 3 / 10"

section \<open>Types (types.ts, multiplayer.ts)\<close>

datatype HitZone = Front | Rear | Left | Right

record Health =
  front :: real
  rear :: real
  left :: real
  right :: real

text \<open>
  The fields \<open>x\<close> and \<open>y\<close> of the source's \<open>Car\<close>, \<open>PlayerState\<close>, \<open>DamagePopup\<close> and
  \<open>Camera\<close> are written \<open>pos_x\<close>/\<open>pos_y\<close>, \<open>ps_x\<close>/\<open>ps_y\<close>, \<open>popup_x\<close>/\<open>popup_y\<close> and
  \<open>cam_x\<close>/\<open>cam_y\<close>; the fields of \<open>PlayerState\<close> carry the prefix \<open>ps_\<close> and those of
  \<open>AnalogInput\<close> the prefix \<open>in_\<close>.
\<close>

record Car =
  pos_x :: real
  pos_y :: real
  vx :: real
  vy :: real
  angle :: real
  angularVel :: real
  width :: real
  height :: real
  color :: string
  health :: Health
  isStatic :: bool

record AnalogInput =
  in_forward :: real
  in_reverse :: real
  in_left :: real
  in_right :: real

record DamagePopup =
  popup_x :: real
  popup_y :: real
  damage :: real
  zone :: HitZone
  age :: real

record Camera =
  cam_x :: real
  cam_y :: real

record PlayerState =
  ps_id :: string
  ps_x :: real
  ps_y :: real
  ps_vx :: real
  ps_vy :: real
  ps_angle :: real
  ps_angularVel :: real
  ps_color :: string
  ps_health :: Health

text \<open>\<open>car.health[zone]\<close>, read and written.\<close>

fun getZone :: "Health \<Rightarrow> HitZone \<Rightarrow> real" where
  "getZone h Front = front h"
| "getZone h Rear = rear h"
| "getZone h Left = left h"
| "getZone h Right = right h"

fun setZone :: "Health \<Rightarrow> HitZone \<Rightarrow> real \<Rightarrow> Health" where
  "setZone h Front v = h\<lparr>front := v\<rparr>"
| "setZone h Rear v = h\<lparr>rear := v\<rparr>"
| "setZone h Left v = h\<lparr>left := v\<rparr>"
| "setZone h Right v = h\<lparr>right := v\<rparr>"

section \<open>Car utilities (car.ts)\<close>

definition createCar :: "real \<Rightarrow> real \<Rightarrow> string \<Rightarrow> real \<Rightarrow> bool \<Rightarrow> Car" where
  "createCar x y col ang static =
     \<lparr>pos_x = x, pos_y = y, vx = 0, vy = 0, angle = ang, angularVel = 0,
      width = CAR_WIDTH, height = CAR_HEIGHT, color = col,
      health = \<lparr>front = 100, rear = 100, left = 100, right = 100\<rparr>,
      isStatic = static\<rparr>"

definition getCarCorners :: "Car \<Rightarrow> (real \<times> real) list" where
  "getCarCorners car =
     (let c = cos (angle car); s = sin (angle car);
          hw = width car / 2; hh = height car / 2
      in [(pos_x car + c * hw - s * hh, pos_y car + s * hw + c * hh),
          (pos_x car + c * hw + s * hh, pos_y car + s * hw - c * hh),
          (pos_x car - c * hw + s * hh, pos_y car - s * hw - c * hh),
          (pos_x car - c * hw - s * hh, pos_y car - s * hw + c * hh)])"

text \<open>
  The two normalisation loops
  \<^verbatim>\<open>while (a > Math.PI) a -= 2 * Math.PI; while (a < -Math.PI) a += 2 * Math.PI;\<close>
  which \<open>getHitZone\<close> and \<open>interpolateOtherPlayers\<close> both run, in exact arithmetic.
  Each loop is a recursive function; its termination is proved from the number of
  turns left to take off, a measure that exists on the reals only. The same loops on
  doubles follow \<open>getHitZone\<close> below.
\<close>

function wrapDown :: "real \<Rightarrow> real" where
  "wrapDown a = (if a > pi then wrapDown (a - 2 * pi) else a)"
  by pat_completeness auto
termination
proof (relation "measure (\<lambda>a. nat \<lceil>(a - pi) / (2 * pi)\<rceil>)")
  show "wf (measure (\<lambda>a. nat \<lceil>(a - pi) / (2 * pi)\<rceil>))" by simp
next
  fix a :: real
  assume gt: "pi < a"
  define q where "q = (a - pi) / (2 * pi)"
  have e: "(a - 2 * pi - pi) / (2 * pi) = q - 1"
    by (simp add: q_def field_simps)
  have "0 < q" using gt by (simp add: q_def)
  then have "0 < \<lceil>q\<rceil>" by simp
  then have "nat \<lceil>q - 1\<rceil> < nat \<lceil>q\<rceil>" by simp
  then have "nat \<lceil>(a - 2 * pi - pi) / (2 * pi)\<rceil> < nat \<lceil>(a - pi) / (2 * pi)\<rceil>"
    unfolding e unfolding q_def .
  then show "(a - 2 * pi, a) \<in> measure (\<lambda>a. nat \<lceil>(a - pi) / (2 * pi)\<rceil>)"
    unfolding in_measure .
qed

function wrapUp :: "real \<Rightarrow> real" where
  "wrapUp a = (if a < - pi then wrapUp (a + 2 * pi) else a)"
  by pat_completeness auto
termination
proof (relation "measure (\<lambda>a. nat \<lceil>(- pi - a) / (2 * pi)\<rceil>)")
  show "wf (measure (\<lambda>a. nat \<lceil>(- pi - a) / (2 * pi)\<rceil>))" by simp
next
  fix a :: real
  assume lt: "a < - pi"
  define q where "q = (- pi - a) / (2 * pi)"
  have e: "(- pi - (a + 2 * pi)) / (2 * pi) = q - 1"
    by (simp add: q_def field_simps)
  have "0 < q" using lt by (simp add: q_def)
  then have "0 < \<lceil>q\<rceil>" by simp
  then have "nat \<lceil>q - 1\<rceil> < nat \<lceil>q\<rceil>" by simp
  then have "nat \<lceil>(- pi - (a + 2 * pi)) / (2 * pi)\<rceil> < nat \<lceil>(- pi - a) / (2 * pi)\<rceil>"
    unfolding e unfolding q_def .
  then show "(a + 2 * pi, a) \<in> measure (\<lambda>a. nat \<lceil>(- pi - a) / (2 * pi)\<rceil>)"
    unfolding in_measure .
qed

declare wrapDown.simps [simp del]
declare wrapUp.simps [simp del]

definition wrapAngle :: "real \<Rightarrow> real" where
  "wrapAngle a = wrapUp (wrapDown a)"

definition getHitZone :: "Car \<Rightarrow> real \<Rightarrow> HitZone" where
  "getHitZone car collisionAngle =
     (let relativeAngle = wrapAngle (collisionAngle - angle car)
      in if relativeAngle \<ge> - pi / 4 \<and> relativeAngle < pi / 4 then Front
         else if relativeAngle \<ge> pi / 4 \<and> relativeAngle < (3 * pi) / 4 then Right
         else if relativeAngle \<ge> (- 3 * pi) / 4 \<and> relativeAngle < - pi / 4 then Left
         else Rear)"

text \<open>
  The same function on doubles. \<open>MATH_PI\<close> is the double \<open>Math.PI\<close>, and \<open>toDouble\<close>
  rounds a real to the nearest double, ties to the even significand: a double has a
  significand of 53 bits, so in the binade of exponent \<open>e\<close> neighbouring doubles are
  \<open>2 ^ (e - 52)\<close> apart. The exponent range is not bounded here (no overflow, no
  subnormal numbers). The products \<open>2 * Math.PI\<close> and the quotients by \<open>4\<close> are exact
  on doubles; \<open>3 * Math.PI\<close> is rounded.
\<close>

definition MATH_PI :: real where
  "MATH_PI = 884279719003555 / 281474976710656"

definition roundTiesEven :: "real \<Rightarrow> int" where
  "roundTiesEven x =
     (let f = \<lfloor>x\<rfloor> in
      if x - of_int f < 1 / 2 then f
      else if 1 / 2 < x - of_int f then f + 1
      else if even f then f else f + 1)"

definition toDouble :: "real \<Rightarrow> real" where
  "toDouble x =
     (if x = 0 then 0
      else (let e = \<lfloor>log 2 \<bar>x\<bar>\<rfloor>;
                ulp = 2 powr (of_int e - 52)
            in ulp * of_int (roundTiesEven (x / ulp))))"

partial_function (option) wrapDownDouble :: "real \<Rightarrow> real option" where
  "wrapDownDouble a =
     (if a > MATH_PI then wrapDownDouble (toDouble (a - 2 * MATH_PI)) else Some a)"

partial_function (option) wrapUpDouble :: "real \<Rightarrow> real option" where
  "wrapUpDouble a =
     (if a < - MATH_PI then wrapUpDouble (toDouble (a + 2 * MATH_PI)) else Some a)"

definition getHitZoneDouble :: "Car \<Rightarrow> real \<Rightarrow> HitZone option" where
  "getHitZoneDouble car collisionAngle =
     Option.bind (wrapDownDouble (toDouble (collisionAngle - angle car)))
       (\<lambda>a. Option.bind (wrapUpDouble a)
          (\<lambda>relativeAngle.
             Some (if relativeAngle \<ge> - MATH_PI / 4 \<and> relativeAngle < MATH_PI / 4
                   then Front
                   else if relativeAngle \<ge> MATH_PI / 4
                           \<and> relativeAngle < toDouble (3 * MATH_PI) / 4
                   then Right
                   else if relativeAngle \<ge> toDouble (- 3 * MATH_PI) / 4
                           \<and> relativeAngle < - MATH_PI / 4
                   then Left
                   else Rear)))"

definition checkCarCollision :: "Car \<Rightarrow> Car \<Rightarrow> bool" where
  "checkCarCollision car1 car2 =
     (let dx = pos_x car2 - pos_x car1;
          dy = pos_y car2 - pos_y car1;
          distance = sqrt (dx * dx + dy * dy);
          minDistance = ((width car1 + width car2) / 2) * (85 / 100)
      in distance < minDistance)"

definition getTotalHealth :: "Car \<Rightarrow> real" where
  "getTotalHealth car =
     (front (health car) + rear (health car) + left (health car) + right (health car)) / 4"

section \<open>Physics utilities (physics.ts)\<close>

text \<open>
  \<open>Math.atan2(y, x)\<close> on reals (signed zeros are outside the model).
\<close>

definition atan2 :: "real \<Rightarrow> real \<Rightarrow> real" where
  "atan2 y x =
     (if x > 0 then arctan (y / x)
      else if x < 0 then (if y \<ge> 0 then arctan (y / x) + pi else arctan (y / x) - pi)
      else if y > 0 then pi / 2
      else if y < 0 then - pi / 2
      else 0)"

text \<open>
  Functions of the source that mutate their \<open>Car\<close> arguments return the updated cars.
  The body of a long function is cut at the source's own seams into steps, each taking
  the car as the previous step left it; the function is the composition of its steps.
\<close>

text \<open>
  \<open>updatePlayerCarPhysics\<close>, steering: the speed-gated steering factor, the analog turn,
  the clamp and the friction of the angular velocity, the new heading.
\<close>

definition steer :: "Car \<Rightarrow> AnalogInput \<Rightarrow> Car" where
  "steer car input =
     (let currentSpeed = sqrt (vx car * vx car + vy car * vy car);
          steeringFactor =
            (if currentSpeed < MIN_SPEED_TO_TURN
             then (currentSpeed / MIN_SPEED_TO_TURN) * (3 / 10)
             else min 1 (currentSpeed / 3));
          c1 = (if in_left input > 0
                then car\<lparr>angularVel := angularVel car - TURN_RATE * steeringFactor * in_left input\<rparr>
                else car);
          c2 = (if in_right input > 0
                then c1\<lparr>angularVel := angularVel c1 + TURN_RATE * steeringFactor * in_right input\<rparr>
                else c1);
          c3 = c2\<lparr>angularVel := max (- MAX_ANGULAR_VEL) (min MAX_ANGULAR_VEL (angularVel c2))\<rparr>;
          c4 = c3\<lparr>angularVel := angularVel c3 * ANGULAR_FRICTION\<rparr>
      in c4\<lparr>angle := angle c4 + angularVel c4\<rparr>)"

text \<open>Analog acceleration, braking and reversing along the heading.\<close>

definition accelerate :: "Car \<Rightarrow> AnalogInput \<Rightarrow> Car" where
  "accelerate car input =
     (let forwardX = cos (angle car);
          forwardY = sin (angle car);
          c1 = (if in_forward input > 0
                then car\<lparr>vx := vx car + forwardX * ACCELERATION * in_forward input,
                         vy := vy car + forwardY * ACCELERATION * in_forward input\<rparr>
                else car);
          forwardSpeed = vx c1 * forwardX + vy c1 * forwardY
      in if in_reverse input > 0
         then (if forwardSpeed > 1 / 2
               then c1\<lparr>vx := vx c1 - forwardX * BRAKE_DECEL * in_reverse input,
                        vy := vy c1 - forwardY * BRAKE_DECEL * in_reverse input\<rparr>
               else c1\<lparr>vx := vx c1 - forwardX * ACCELERATION * (1 / 2) * in_reverse input,
                        vy := vy c1 - forwardY * ACCELERATION * (1 / 2) * in_reverse input\<rparr>)
         else c1)"

text \<open>The two frictions, along and across the heading.\<close>

definition applyFriction :: "Car \<Rightarrow> Car" where
  "applyFriction car =
     (let forwardX = cos (angle car);
          forwardY = sin (angle car);
          rightX = - forwardY;
          rightY = forwardX;
          forwardVel = vx car * forwardX + vy car * forwardY;
          sidewaysVel = vx car * rightX + vy car * rightY;
          newForwardVel = forwardVel * FORWARD_FRICTION;
          newSidewaysVel = sidewaysVel * SIDEWAYS_FRICTION
      in car\<lparr>vx := forwardX * newForwardVel + rightX * newSidewaysVel,
              vy := forwardY * newForwardVel + rightY * newSidewaysVel\<rparr>)"

text \<open>The speed clamp and the integration of the position; the new speed is returned.\<close>

definition clampAndMove :: "Car \<Rightarrow> Car \<times> real" where
  "clampAndMove car =
     (let newSpeed = sqrt (vx car * vx car + vy car * vy car);
          c1 = (if newSpeed > MAX_SPEED
                then car\<lparr>vx := (vx car / newSpeed) * MAX_SPEED,
                         vy := (vy car / newSpeed) * MAX_SPEED\<rparr>
                else car);
          c2 = c1\<lparr>pos_x := pos_x c1 + vx c1\<rparr>;
          c3 = c2\<lparr>pos_y := pos_y c2 + vy c2\<rparr>
      in (c3, newSpeed))"

definition updatePlayerCarPhysics :: "Car \<Rightarrow> AnalogInput \<Rightarrow> Car \<times> real" where
  "updatePlayerCarPhysics car input =
     clampAndMove (applyFriction (accelerate (steer car input) input))"

text \<open>
  \<open>handleCarCollision\<close>. \<open>random1\<close> and \<open>random2\<close> are the two draws of
  \<open>Math.random()\<close>, \<open>now\<close> the value of \<open>Date.now()\<close>; the source draws them only
  on the paths that use them. The result is the two cars, the popup array and the
  returned collision time. The steps: the cars are separated, bounced, kicked, and,
  past the cooldown and the impact threshold, damaged.
\<close>

definition separateCars :: "Car \<Rightarrow> Car \<Rightarrow> real \<Rightarrow> real \<Rightarrow> real \<Rightarrow> Car \<times> Car" where
  "separateCars playerCar targetCar nx ny separationForce =
     (playerCar\<lparr>pos_x := pos_x playerCar - nx * separationForce * (6 / 10),
                pos_y := pos_y playerCar - ny * separationForce * (6 / 10)\<rparr>,
      targetCar\<lparr>pos_x := pos_x targetCar + nx * separationForce * (4 / 10),
                pos_y := pos_y targetCar + ny * separationForce * (4 / 10)\<rparr>)"

definition bounceCars :: "Car \<Rightarrow> Car \<Rightarrow> real \<Rightarrow> real \<Rightarrow> real \<Rightarrow> Car \<times> Car" where
  "bounceCars playerCar targetCar nx ny impactComponent =
     (let bounce = 7 / 10
      in if impactComponent > 0
         then (playerCar\<lparr>vx := vx playerCar - nx * impactComponent * bounce,
                         vy := vy playerCar - ny * impactComponent * bounce\<rparr>,
               targetCar\<lparr>vx := vx targetCar + nx * impactComponent * bounce * (8 / 10),
                         vy := vy targetCar + ny * impactComponent * bounce * (8 / 10)\<rparr>)
         else (playerCar\<lparr>vx := vx playerCar - nx * impactComponent * bounce * (8 / 10),
                         vy := vy playerCar - ny * impactComponent * bounce * (8 / 10)\<rparr>,
               targetCar\<lparr>vx := vx targetCar + nx * impactComponent * bounce,
                         vy := vy targetCar + ny * impactComponent * bounce\<rparr>))"

definition kickCars :: "Car \<Rightarrow> Car \<Rightarrow> real \<Rightarrow> real \<Rightarrow> Car \<times> Car" where
  "kickCars playerCar targetCar random1 random2 =
     (playerCar\<lparr>angularVel := angularVel playerCar + (random1 - 1 / 2) * (1 / 10)\<rparr>,
      targetCar\<lparr>angularVel := angularVel targetCar + (random2 - 1 / 2) * (12 / 100)\<rparr>)"

definition damageCars ::
  "Car \<Rightarrow> Car \<Rightarrow> real \<Rightarrow> real \<Rightarrow> DamagePopup list \<Rightarrow> Car \<times> Car \<times> DamagePopup list" where
  "damageCars playerCar targetCar impactSpeed collisionAngle damagePopups =
     (let playerHitZone = getHitZone playerCar collisionAngle;
          targetHitZone = getHitZone targetCar (collisionAngle + pi);
          dmg = of_int (round ((impactSpeed - MIN_IMPACT_FOR_DAMAGE) * DAMAGE_MULTIPLIER));
          p = playerCar\<lparr>health := setZone (health playerCar) playerHitZone
                (max 0 (getZone (health playerCar) playerHitZone
                         - dmg * ATTACKER_DAMAGE_RATIO))\<rparr>;
          t = targetCar\<lparr>health := setZone (health targetCar) targetHitZone
                (max 0 (getZone (health targetCar) targetHitZone - dmg))\<rparr>
      in (p, t,
          damagePopups @
            [\<lparr>popup_x = (pos_x p + pos_x t) / 2,
              popup_y = (pos_y p + pos_y t) / 2 - 20,
              damage = dmg, zone = targetHitZone, age = 0\<rparr>]))"

text \<open>
  The body of \<open>handleCarCollision\<close> past its two early returns; \<open>dx\<close>, \<open>dy\<close>,
  \<open>distance\<close> and \<open>minDist\<close> are the locals computed before them.
\<close>

definition resolveCollision ::
  "Car \<Rightarrow> Car \<Rightarrow> real \<Rightarrow> real \<Rightarrow> real \<Rightarrow> real \<Rightarrow> real \<Rightarrow> DamagePopup list
     \<Rightarrow> real \<Rightarrow> real \<Rightarrow> real \<Rightarrow> Car \<times> Car \<times> DamagePopup list \<times> real" where
  "resolveCollision playerCar targetCar dx dy distance minDist lastCollisionTime damagePopups
       random1 random2 now =
     (let nx = dx / distance;
          ny = dy / distance;
          overlap = minDist - distance;
          separationForce = overlap + 2;
          s1 = separateCars playerCar targetCar nx ny separationForce;
          relVx = vx (fst s1) - vx (snd s1);
          relVy = vy (fst s1) - vy (snd s1);
          impactSpeed = \<bar>relVx * nx + relVy * ny\<bar>;
          impactComponent = relVx * nx + relVy * ny;
          s2 = bounceCars (fst s1) (snd s1) nx ny impactComponent;
          s3 = kickCars (fst s2) (snd s2) random1 random2
      in if now - lastCollisionTime < 150
         then (fst s3, snd s3, damagePopups, lastCollisionTime)
         else if impactSpeed > MIN_IMPACT_FOR_DAMAGE
         then
           let d = damageCars (fst s3) (snd s3) impactSpeed (atan2 dy dx) damagePopups
           in (fst d, fst (snd d), snd (snd d), now)
         else (fst s3, snd s3, damagePopups, lastCollisionTime))"

definition handleCarCollision ::
  "Car \<Rightarrow> Car \<Rightarrow> real \<Rightarrow> DamagePopup list \<Rightarrow> real \<Rightarrow> real \<Rightarrow> real
     \<Rightarrow> Car \<times> Car \<times> DamagePopup list \<times> real" where
  "handleCarCollision playerCar targetCar lastCollisionTime damagePopups random1 random2 now =
     (if \<not> checkCarCollision playerCar targetCar
      then (playerCar, targetCar, damagePopups, lastCollisionTime)
      else
        let dx = pos_x targetCar - pos_x playerCar;
            dy = pos_y targetCar - pos_y playerCar;
            distance = sqrt (dx * dx + dy * dy);
            minDist = ((width playerCar + width targetCar) / 2) * (85 / 100)
        in if distance \<ge> minDist \<or> distance = 0
           then (playerCar, targetCar, damagePopups, lastCollisionTime)
           else resolveCollision playerCar targetCar dx dy distance minDist
                  lastCollisionTime damagePopups random1 random2 now)"

text \<open>
  \<open>handleWallCollisions\<close>: the corners are computed once, before the loop; the loop
  body runs its four tests on each corner in turn, against the car as updated so far.
  The state of the loop is the car and the flag \<open>collided\<close>.
\<close>

definition hitLeftWall :: "Car \<Rightarrow> real \<Rightarrow> Car" where
  "hitLeftWall car cx =
     (let c1 = car\<lparr>pos_x := pos_x car + (WALL_THICKNESS - cx)\<rparr>;
          c2 = c1\<lparr>vx := \<bar>vx c1\<bar> * BOUNCE_FACTOR\<rparr>;
          c3 = c2\<lparr>vx := vx c2 * COLLISION_DAMPING\<rparr>
      in c3\<lparr>vy := vy c3 * COLLISION_DAMPING\<rparr>)"

definition hitRightWall :: "Car \<Rightarrow> real \<Rightarrow> Car" where
  "hitRightWall car cx =
     (let c1 = car\<lparr>pos_x := pos_x car - (cx - (WORLD_WIDTH - WALL_THICKNESS))\<rparr>;
          c2 = c1\<lparr>vx := - \<bar>vx c1\<bar> * BOUNCE_FACTOR\<rparr>;
          c3 = c2\<lparr>vx := vx c2 * COLLISION_DAMPING\<rparr>
      in c3\<lparr>vy := vy c3 * COLLISION_DAMPING\<rparr>)"

definition hitTopWall :: "Car \<Rightarrow> real \<Rightarrow> Car" where
  "hitTopWall car cy =
     (let c1 = car\<lparr>pos_y := pos_y car + (WALL_THICKNESS - cy)\<rparr>;
          c2 = c1\<lparr>vy := \<bar>vy c1\<bar> * BOUNCE_FACTOR\<rparr>;
          c3 = c2\<lparr>vx := vx c2 * COLLISION_DAMPING\<rparr>
      in c3\<lparr>vy := vy c3 * COLLISION_DAMPING\<rparr>)"

definition hitBottomWall :: "Car \<Rightarrow> real \<Rightarrow> Car" where
  "hitBottomWall car cy =
     (let c1 = car\<lparr>pos_y := pos_y car - (cy - (WORLD_HEIGHT - WALL_THICKNESS))\<rparr>;
          c2 = c1\<lparr>vy := - \<bar>vy c1\<bar> * BOUNCE_FACTOR\<rparr>;
          c3 = c2\<lparr>vx := vx c2 * COLLISION_DAMPING\<rparr>
      in c3\<lparr>vy := vy c3 * COLLISION_DAMPING\<rparr>)"

definition leftWall :: "real \<Rightarrow> Car \<times> bool \<Rightarrow> Car \<times> bool" where
  "leftWall cx s = (if cx < WALL_THICKNESS then (hitLeftWall (fst s) cx, True) else s)"

definition rightWall :: "real \<Rightarrow> Car \<times> bool \<Rightarrow> Car \<times> bool" where
  "rightWall cx s =
     (if cx > WORLD_WIDTH - WALL_THICKNESS then (hitRightWall (fst s) cx, True) else s)"

definition topWall :: "real \<Rightarrow> Car \<times> bool \<Rightarrow> Car \<times> bool" where
  "topWall cy s = (if cy < WALL_THICKNESS then (hitTopWall (fst s) cy, True) else s)"

definition bottomWall :: "real \<Rightarrow> Car \<times> bool \<Rightarrow> Car \<times> bool" where
  "bottomWall cy s =
     (if cy > WORLD_HEIGHT - WALL_THICKNESS then (hitBottomWall (fst s) cy, True) else s)"

definition wallStep :: "Car \<times> bool \<Rightarrow> real \<times> real \<Rightarrow> Car \<times> bool" where
  "wallStep s corner =
     bottomWall (snd corner) (topWall (snd corner) (rightWall (fst corner)
       (leftWall (fst corner) s)))"

definition handleWallCollisions :: "Car \<Rightarrow> real \<Rightarrow> Car \<times> bool" where
  "handleWallCollisions car random1 =
     (let r = foldl wallStep (car, False) (getCarCorners car)
      in (if snd r
          then (fst r)\<lparr>angularVel := angularVel (fst r) + (random1 - 1 / 2) * (1 / 10)\<rparr>
          else fst r,
          snd r))"

definition updateCamera :: "Camera \<Rightarrow> Car \<Rightarrow> Camera" where
  "updateCamera camera playerCar =
     (let playerScreenX = pos_x playerCar - cam_x camera;
          playerScreenY = pos_y playerCar - cam_y camera;
          scrollMarginX = CANVAS_WIDTH * SCROLL_THRESHOLD;
          scrollMarginY = CANVAS_HEIGHT * SCROLL_THRESHOLD;
          x1 = (if playerScreenX < scrollMarginX then pos_x playerCar - scrollMarginX
                else if playerScreenX > CANVAS_WIDTH - scrollMarginX
                then pos_x playerCar - (CANVAS_WIDTH - scrollMarginX)
                else cam_x camera);
          y1 = (if playerScreenY < scrollMarginY then pos_y playerCar - scrollMarginY
                else if playerScreenY > CANVAS_HEIGHT - scrollMarginY
                then pos_y playerCar - (CANVAS_HEIGHT - scrollMarginY)
                else cam_y camera)
      in camera\<lparr>cam_x := max 0 (min (WORLD_WIDTH - CANVAS_WIDTH) x1),
                 cam_y := max 0 (min (WORLD_HEIGHT - CANVAS_HEIGHT) y1)\<rparr>)"

definition updateDamagePopups :: "DamagePopup list \<Rightarrow> DamagePopup list" where
  "updateDamagePopups popups =
     filter (\<lambda>p. age p < 60)
       (map (\<lambda>p. p\<lparr>age := age p + 1, popup_y := popup_y p - 1\<rparr>) popups)"

section \<open>Multiplayer utilities (multiplayer.ts)\<close>

definition playerStateToCar :: "PlayerState \<Rightarrow> Car" where
  "playerStateToCar st =
     \<lparr>pos_x = ps_x st, pos_y = ps_y st, vx = ps_vx st, vy = ps_vy st,
      angle = ps_angle st, angularVel = ps_angularVel st,
      width = 50, height = 30, color = ps_color st, health = ps_health st,
      isStatic = False\<rparr>"

definition carToPlayerState :: "Car \<Rightarrow> string \<Rightarrow> PlayerState" where
  "carToPlayerState car ident =
     \<lparr>ps_id = ident, ps_x = pos_x car, ps_y = pos_y car, ps_vx = vx car, ps_vy = vy car,
      ps_angle = angle car, ps_angularVel = angularVel car, ps_color = color car,
      ps_health = health car\<rparr>"

text \<open>
  Messages from the relay, as the client reads them. Of a roster
  (\<open>Record<string, PlayerState>\<close>) the client reads \<open>Object.values\<close> only, so a
  roster is the list of its values. \<open>Unhandled\<close> is a message of any other type, or
  one that \<open>JSON.parse\<close> rejects: no case of the switch runs.
\<close>

datatype ServerMessage =
    Players "PlayerState list"
  | PlayerJoined PlayerState
  | PlayerLeft string
  | Welcome string "PlayerState list"
  | Unhandled

section \<open>Reconciliation (useMultiplayer.ts)\<close>

text \<open>
  \<open>InterpolatedCar\<close> pairs the rendered car with the network target. Cars are values
  here; the one sharing the source has between the two is recorded in \<open>healthShared\<close>:
  \<open>{ current: { ...car }, target: car }\<close> copies the car shallowly, so
  \<open>current.health\<close> and \<open>target.health\<close> are one object until either \<open>target\<close> is
  replaced or \<open>current.health\<close> is assigned a fresh copy.
\<close>

record InterpolatedCar =
  current :: Car
  target :: Car
  healthShared :: bool

definition newInterpolatedCar :: "Car \<Rightarrow> InterpolatedCar" where
  "newInterpolatedCar car = \<lparr>current = car, target = car, healthShared = True\<rparr>"

definition interpolateCar :: "InterpolatedCar \<Rightarrow> InterpolatedCar" where
  "interpolateCar player =
     (let tgt = target player;
          c0 = current player;
          c1 = c0\<lparr>pos_x := pos_x c0 + (pos_x tgt - pos_x c0) * INTERPOLATION_FACTOR\<rparr>;
          c2 = c1\<lparr>pos_y := pos_y c1 + (pos_y tgt - pos_y c1) * INTERPOLATION_FACTOR\<rparr>;
          c3 = c2\<lparr>vx := vx c2 + (vx tgt - vx c2) * INTERPOLATION_FACTOR\<rparr>;
          c4 = c3\<lparr>vy := vy c3 + (vy tgt - vy c3) * INTERPOLATION_FACTOR\<rparr>;
          angleDiff = wrapAngle (angle tgt - angle c4);
          c5 = c4\<lparr>angle := angle c4 + angleDiff * INTERPOLATION_FACTOR\<rparr>;
          c6 = c5\<lparr>angularVel :=
                    angularVel c5 + (angularVel tgt - angularVel c5) * INTERPOLATION_FACTOR\<rparr>;
          c7 = c6\<lparr>health := health tgt\<rparr>
      in player\<lparr>current := c7, healthShared := False\<rparr>)"

text \<open>
  The \<open>Map<string, InterpolatedCar>\<close> is an association list in insertion order:
  \<open>Map.set\<close> is \<^const>\<open>AList.update\<close>, \<open>Map.get\<close> is \<^const>\<open>map_of\<close>, \<open>Map.delete\<close>
  is \<^const>\<open>AList.delete\<close>, and \<open>forEach\<close> visits the entries in list order.
\<close>

type_synonym PlayerMap = "(string \<times> InterpolatedCar) list"

definition interpolateOtherPlayers :: "PlayerMap \<Rightarrow> PlayerMap" where
  "interpolateOtherPlayers players = map (\<lambda>(k, player). (k, interpolateCar player)) players"

text \<open>
  The state of one client: the refs of the game page and of the multiplayer hook.
  React display state (\<open>isConnected\<close>, \<open>speed\<close>) is left out.
\<close>

record Client =
  playerCarRef :: Car
  otherPlayersRef :: PlayerMap
  playerIdRef :: "string option"
  playerCount :: nat
  lastCollisionTimeRef :: "(string \<times> real) list"
  damagePopupsRef :: "DamagePopup list"
  cameraRef :: Camera

definition welcomeStep :: "string \<Rightarrow> PlayerMap \<Rightarrow> PlayerState \<Rightarrow> PlayerMap" where
  "welcomeStep ident players p =
     (if ps_id p \<noteq> ident
      then AList.update (ps_id p) (newInterpolatedCar (playerStateToCar p)) players
      else players)"

definition playersStep ::
  "string option \<Rightarrow> PlayerMap \<Rightarrow> PlayerMap \<Rightarrow> PlayerState \<Rightarrow> PlayerMap" where
  "playersStep self currentPlayers newPlayers p =
     (if Some (ps_id p) \<noteq> self
      then
        let targetCar = playerStateToCar p
        in (case map_of currentPlayers (ps_id p) of
              Some existing \<Rightarrow>
                AList.update (ps_id p) (existing\<lparr>target := targetCar, healthShared := False\<rparr>)
                  newPlayers
            | None \<Rightarrow> AList.update (ps_id p) (newInterpolatedCar targetCar) newPlayers)
      else newPlayers)"

fun onmessage :: "Client \<Rightarrow> ServerMessage \<Rightarrow> Client" where
  "onmessage c (Welcome ident ps) =
     (let players = foldl (welcomeStep ident) [] ps
      in c\<lparr>playerIdRef := Some ident, otherPlayersRef := players,
            playerCount := length players + 1\<rparr>)"
| "onmessage c (Players ps) =
     (let currentPlayers = otherPlayersRef c;
          newPlayers = foldl (playersStep (playerIdRef c) currentPlayers) [] ps
      in c\<lparr>otherPlayersRef := newPlayers, playerCount := length newPlayers + 1\<rparr>)"
| "onmessage c (PlayerJoined p) =
     (if Some (ps_id p) \<noteq> playerIdRef c
      then
        let players = AList.update (ps_id p) (newInterpolatedCar (playerStateToCar p))
                        (otherPlayersRef c)
        in c\<lparr>otherPlayersRef := players, playerCount := length players + 1\<rparr>
      else c)"
| "onmessage c (PlayerLeft ident) =
     (let players = AList.delete ident (otherPlayersRef c)
      in c\<lparr>otherPlayersRef := players, playerCount := length players + 1\<rparr>)"
| "onmessage c Unhandled = c"

section \<open>The simulation tick (game page, updatePhysics)\<close>

text \<open>
  What one tick draws from outside: for the collision with the remote car \<open>k\<close> the two
  random numbers and the clock, and the random number of the wall collision.
\<close>

record TickEnv =
  collisionRandom1 :: "string \<Rightarrow> real"
  collisionRandom2 :: "string \<Rightarrow> real"
  clock :: "string \<Rightarrow> real"
  wallRandom :: real

text \<open>
  The body of \<open>otherPlayersRef.current.forEach\<close>: the collision writes into
  \<open>interpolatedCar.current\<close>; where the health object is shared, the write reaches
  \<open>target.health\<close> as well.
\<close>

fun collideStep ::
  "TickEnv \<Rightarrow> Car \<times> PlayerMap \<times> (string \<times> real) list \<times> DamagePopup list
     \<Rightarrow> string \<times> InterpolatedCar
     \<Rightarrow> Car \<times> PlayerMap \<times> (string \<times> real) list \<times> DamagePopup list" where
  "collideStep env (playerCar, visited, lastTimes, popups) (odId, interpolatedCar) =
     (let otherCar = current interpolatedCar;
          lastTime = (case map_of lastTimes odId of Some t \<Rightarrow> t | None \<Rightarrow> 0);
          r = handleCarCollision playerCar otherCar lastTime popups
                (collisionRandom1 env odId) (collisionRandom2 env odId) (clock env odId);
          otherCar' = fst (snd r);
          newTime = snd (snd (snd r));
          interpolatedCar' = interpolatedCar
            \<lparr>current := otherCar',
             target := (if healthShared interpolatedCar
                        then (target interpolatedCar)\<lparr>health := health otherCar'\<rparr>
                        else target interpolatedCar)\<rparr>
      in (fst r, visited @ [(odId, interpolatedCar')],
          (if newTime \<noteq> lastTime then AList.update odId newTime lastTimes else lastTimes),
          fst (snd (snd r))))"

definition collideAll :: "TickEnv \<Rightarrow> Client \<Rightarrow> Client" where
  "collideAll env c =
     (let r = foldl (collideStep env)
                (playerCarRef c, [], lastCollisionTimeRef c, damagePopupsRef c)
                (otherPlayersRef c)
      in c\<lparr>playerCarRef := fst r, otherPlayersRef := fst (snd r),
            lastCollisionTimeRef := fst (snd (snd r)),
            damagePopupsRef := snd (snd (snd r))\<rparr>)"

definition updatePhysics :: "Client \<Rightarrow> AnalogInput \<Rightarrow> TickEnv \<Rightarrow> Client" where
  "updatePhysics c input env =
     (let c1 = c\<lparr>otherPlayersRef := interpolateOtherPlayers (otherPlayersRef c)\<rparr>;
          c2 = c1\<lparr>playerCarRef := fst (updatePlayerCarPhysics (playerCarRef c1) input)\<rparr>;
          c3 = collideAll env c2;
          c4 = c3\<lparr>playerCarRef := fst (handleWallCollisions (playerCarRef c3) (wallRandom env))\<rparr>;
          c5 = c4\<lparr>cameraRef := updateCamera (cameraRef c4) (playerCarRef c4)\<rparr>
      in c5\<lparr>damagePopupsRef := updateDamagePopups (damagePopupsRef c5)\<rparr>)"

text \<open>
  The client as the page mounts it: the car created at its spawn point, no remote
  vehicles, the camera centred on the spawn point.
\<close>

definition initialClient :: "real \<Rightarrow> real \<Rightarrow> real \<Rightarrow> string \<Rightarrow> Client" where
  "initialClient x y ang col =
     \<lparr>playerCarRef = (createCar x y ''#e74c3c'' ang False)\<lparr>color := col\<rparr>,
      otherPlayersRef = [],
      playerIdRef = None,
      playerCount = 1,
      lastCollisionTimeRef = [],
      damagePopupsRef = [],
      cameraRef = \<lparr>cam_x = x - CANVAS_WIDTH / 2, cam_y = y - CANVAS_HEIGHT / 2\<rparr>\<rparr>"

section \<open>The relay (party/server.ts)\<close>

datatype ClientMessage =
    Update PlayerState
  | Join string
  | Leave
  | Unparseable

type_synonym Roster = "string \<rightharpoonup> PlayerState"

datatype RelayMessage =
    RelayPlayers Roster
  | RelayPlayerJoined PlayerState
  | RelayPlayerLeft string
  | RelayWelcome string Roster

text \<open>
  The field \<open>players\<close> is a plain object, created by \<open>{}\<close>. Its own properties are
  the roster: they are what \<open>JSON.stringify\<close> writes into a message and what
  \<open>delete\<close> removes. A read \<open>this.players[k]\<close> is different: a key that is not an
  own property is looked up along the prototype chain, which starts at
  \<open>Object.prototype\<close>. An assignment to a key stores an own property, except for the
  key \<open>__proto__\<close>, which \<open>Object.prototype\<close> defines with a setter: assigning an
  object to it installs that object as the prototype of \<open>players\<close> and stores
  nothing. \<open>protoSlot\<close> holds the state object installed this way, if any; its own
  prototype is \<open>Object.prototype\<close> again.
\<close>

record PlayersObject =
  ownProps :: Roster
  protoSlot :: "PlayerState option"

text \<open>The property names of \<open>Object.prototype\<close>; the value of each is truthy.\<close>

definition objectPrototypeKeys :: "string list" where
  "objectPrototypeKeys =
     [''constructor'', ''__defineGetter__'', ''__defineSetter__'', ''hasOwnProperty'',
      ''__lookupGetter__'', ''__lookupSetter__'', ''isPrototypeOf'',
      ''propertyIsEnumerable'', ''toString'', ''valueOf'', ''__proto__'',
      ''toLocaleString'']"

text \<open>
  \<open>stateProperty st k\<close> is the truthiness of \<open>st[k]\<close> when \<open>k\<close> is a property of the
  state object \<open>st\<close>: a number is truthy unless it is zero, a string unless it is
  empty, an object always.
\<close>

definition stateProperty :: "PlayerState \<Rightarrow> string \<Rightarrow> bool option" where
  "stateProperty st k =
     (if k = ''id'' then Some (ps_id st \<noteq> [])
      else if k = ''x'' then Some (ps_x st \<noteq> 0)
      else if k = ''y'' then Some (ps_y st \<noteq> 0)
      else if k = ''vx'' then Some (ps_vx st \<noteq> 0)
      else if k = ''vy'' then Some (ps_vy st \<noteq> 0)
      else if k = ''angle'' then Some (ps_angle st \<noteq> 0)
      else if k = ''angularVel'' then Some (ps_angularVel st \<noteq> 0)
      else if k = ''color'' then Some (ps_color st \<noteq> [])
      else if k = ''health'' then Some True
      else None)"

text \<open>The test \<open>if (this.players[k])\<close>.\<close>

definition truthyEntry :: "PlayersObject \<Rightarrow> string \<Rightarrow> bool" where
  "truthyEntry players k =
     (case ownProps players k of
        Some entry \<Rightarrow> True
      | None \<Rightarrow>
          (case protoSlot players of
             Some st \<Rightarrow>
               (case stateProperty st k of
                  Some b \<Rightarrow> b
                | None \<Rightarrow> k \<in> set objectPrototypeKeys)
           | None \<Rightarrow> k \<in> set objectPrototypeKeys))"

text \<open>The assignment \<open>this.players[k] = st\<close>.\<close>

definition assignEntry :: "PlayersObject \<Rightarrow> string \<Rightarrow> PlayerState \<Rightarrow> PlayersObject" where
  "assignEntry players k st =
     (if k = ''__proto__'' \<and> ownProps players k = None
      then players\<lparr>protoSlot := Some st\<rparr>
      else players\<lparr>ownProps := (ownProps players)(k \<mapsto> st)\<rparr>)"

text \<open>The statement \<open>delete this.players[k]\<close>.\<close>

definition deleteEntry :: "PlayersObject \<Rightarrow> string \<Rightarrow> PlayersObject" where
  "deleteEntry players k = players\<lparr>ownProps := (ownProps players)(k := None)\<rparr>"

text \<open>The object the server starts with.\<close>

definition emptyPlayers :: PlayersObject where
  "emptyPlayers = \<lparr>ownProps = Map.empty, protoSlot = None\<rparr>"

text \<open>
  \<open>room.broadcast(msg, without)\<close> is recorded as the message and the list of excluded
  connection ids. \<open>onMessage\<close> returns the \<open>players\<close> object and the broadcasts it
  made; \<open>random1\<close>, \<open>random2\<close>, \<open>random3\<close> are the draws of the \<open>join\<close> case.
\<close>

fun onMessage ::
  "PlayersObject \<Rightarrow> ClientMessage \<Rightarrow> string \<Rightarrow> real \<Rightarrow> real \<Rightarrow> real
     \<Rightarrow> PlayersObject \<times> (RelayMessage \<times> string list) list" where
  "onMessage players (Join col) sender random1 random2 random3 =
     (let newPlayer =
            \<lparr>ps_id = sender,
             ps_x = 1350 + random1 * 200 - 100,
             ps_y = 900 + random2 * 200 - 100,
             ps_vx = 0, ps_vy = 0,
             ps_angle = random3 * pi * 2,
             ps_angularVel = 0,
             ps_color = col,
             ps_health = \<lparr>front = 100, rear = 100, left = 100, right = 100\<rparr>\<rparr>
      in (assignEntry players sender newPlayer, [(RelayPlayerJoined newPlayer, [sender])]))"
| "onMessage players (Update st) sender random1 random2 random3 =
     (let players' = (if truthyEntry players sender
                      then assignEntry players sender (st\<lparr>ps_id := sender\<rparr>)
                      else players)
      in (players', [(RelayPlayers (ownProps players'), [])]))"
| "onMessage players Leave sender random1 random2 random3 =
     (deleteEntry players sender, [(RelayPlayerLeft sender, [])])"
| "onMessage players Unparseable sender random1 random2 random3 = (players, [])"

definition onConnect :: "PlayersObject \<Rightarrow> string \<Rightarrow> RelayMessage" where
  "onConnect players conn = RelayWelcome conn (ownProps players)"

definition onClose ::
  "PlayersObject \<Rightarrow> string \<Rightarrow> PlayersObject \<times> (RelayMessage \<times> string list) list" where
  "onClose players conn = (deleteEntry players conn, [(RelayPlayerLeft conn, [])])"

section \<open>Example data\<close>

definition fullHealth :: Health where
  "fullHealth = \<lparr>front = 100, rear = 100, left = 100, right = 100\<rparr>"

definition snapshotA :: PlayerState where
  "snapshotA = \<lparr>ps_id = ''a'', ps_x = 1350, ps_y = 900, ps_vx = 0, ps_vy = 0, ps_angle = 0,
     ps_angularVel = 0, ps_color = ''#3498db'', ps_health = fullHealth\<rparr>"

section \<open>Auxiliary notions for the properties\<close>

text \<open>
  The chain of tests of \<open>getHitZone\<close> on the normalised relative angle.
\<close>

definition bucket :: "real \<Rightarrow> HitZone" where
  "bucket r =
     (if r \<ge> - pi / 4 \<and> r < pi / 4 then Front
      else if r \<ge> pi / 4 \<and> r < (3 * pi) / 4 then Right
      else if r \<ge> (- 3 * pi) / 4 \<and> r < - pi / 4 then Left
      else Rear)"

text \<open>
  The classification in the specification's words, for a relative angle in \<open>[-\<pi>, \<pi>]\<close>:
  quadrants of width \<open>\<pi>/2\<close> centred on \<open>0\<close> (front), \<open>\<pi>/2\<close> (right), \<open>-\<pi>/2\<close> (left)
  and \<open>\<plusminus>\<pi>\<close> (rear, the rest of the circle), each one taking its lower boundary.
\<close>

definition quadrantZone :: "real \<Rightarrow> HitZone" where
  "quadrantZone r =
     (if \<bar>r\<bar> < pi / 4 \<or> r = - pi / 4 then Front
      else if \<bar>r - pi / 2\<bar> < pi / 4 \<or> r = pi / 4 then Right
      else if \<bar>r + pi / 2\<bar> < pi / 4 \<or> r = - 3 * pi / 4 then Left
      else Rear)"



text \<open>
  A corner, and a car with all its corners, within the world bounds inset by the wall
  thickness.
\<close>

definition cornerInside :: "real \<times> real \<Rightarrow> bool" where
  "cornerInside corner =
     (WALL_THICKNESS \<le> fst corner \<and> fst corner \<le> WORLD_WIDTH - WALL_THICKNESS
      \<and> WALL_THICKNESS \<le> snd corner \<and> snd corner \<le> WORLD_HEIGHT - WALL_THICKNESS)"

definition cornersInside :: "Car \<Rightarrow> bool" where
  "cornersInside car = list_all cornerInside (getCarCorners car)"


text \<open>
  The scenario of the specification: a car at the origin moving at speed 5 along its
  heading, a static car 10 units ahead; the first car at rest; a static car whose rear
  corners are beyond the left wall.
\<close>

definition carA :: Car where "carA = (createCar 0 0 ''#e74c3c'' 0 False)\<lparr>vx := 5\<rparr>"
definition carB :: Car where "carB = createCar 10 0 ''#3498db'' 0 True"
definition carC :: Car where "carC = createCar 0 0 ''#e74c3c'' 0 False"

definition carS :: Car where "carS = createCar 10 900 ''#3498db'' 0 True"



text \<open>
  A remote car rendered at the origin whose target is 10 units ahead; the same with a
  damaged front zone written into the rendered car.
\<close>

definition remoteA :: InterpolatedCar where
  "remoteA = \<lparr>current = createCar 0 0 ''#3498db'' 0 False,
              target = createCar 10 0 ''#3498db'' 0 False,
              healthShared = False\<rparr>"

definition remoteB :: InterpolatedCar where
  "remoteB = \<lparr>current = (createCar 0 0 ''#3498db'' 0 False)
                  \<lparr>health := \<lparr>front = 40, rear = 100, left = 100, right = 100\<rparr>\<rparr>,
              target = createCar 10 0 ''#3498db'' 0 False,
              healthShared = False\<rparr>"


text \<open>
  A client that tracks the remote car \<open>a\<close>, and the snapshot of another player \<open>b\<close>.
\<close>

definition clientA :: Client where
  "clientA = (initialClient 1350 900 0 ''#e74c3c'')
     \<lparr>playerIdRef := Some ''me'', otherPlayersRef := [(''a'', remoteA)], playerCount := 2\<rparr>"

definition snapshotB :: PlayerState where
  "snapshotB = snapshotA\<lparr>ps_id := ''b'', ps_x := 500\<rparr>"


definition forwardInput :: AnalogInput where
  "forwardInput = \<lparr>in_forward = 1, in_reverse = 0, in_left = 0, in_right = 0\<rparr>"

definition quietEnv :: TickEnv where
  "quietEnv = \<lparr>collisionRandom1 = (\<lambda>k. 1 / 2), collisionRandom2 = (\<lambda>k. 1 / 2),
                clock = (\<lambda>k. 0), wallRandom = 1 / 2\<rparr>"

text \<open>
  What the tests of one corner coordinate \<open>c\<close> add to the car's position on that axis,
  for the world extent \<open>hi\<close>: the penetration into the near wall, or minus the
  penetration into the far wall.
\<close>

definition pushIn :: "real \<Rightarrow> real \<Rightarrow> real" where
  "pushIn hi c = (if c < WALL_THICKNESS then WALL_THICKNESS - c else 0)
               - (if c > hi - WALL_THICKNESS then c - (hi - WALL_THICKNESS) else 0)"








text \<open>
  The bound on the zones: of a health record, of a tracked remote car (rendered copy
  and target), of all the vehicles a client holds.
\<close>

definition healthyZones :: "Health \<Rightarrow> bool" where
  "healthyZones h =
     (0 \<le> front h \<and> front h \<le> 100 \<and> 0 \<le> rear h \<and> rear h \<le> 100
      \<and> 0 \<le> left h \<and> left h \<le> 100 \<and> 0 \<le> right h \<and> right h \<le> 100)"

definition healthyRecord :: "string \<times> InterpolatedCar \<Rightarrow> bool" where
  "healthyRecord e =
     (healthyZones (health (current (snd e))) \<and> healthyZones (health (target (snd e))))"

definition healthyClient :: "Client \<Rightarrow> bool" where
  "healthyClient c =
     (healthyZones (health (playerCarRef c)) \<and> list_all healthyRecord (otherPlayersRef c))"

fun healthyMessage :: "ServerMessage \<Rightarrow> bool" where
  "healthyMessage (Players ps) = list_all (\<lambda>p. healthyZones (ps_health p)) ps"
| "healthyMessage (Welcome ident ps) = list_all (\<lambda>p. healthyZones (ps_health p)) ps"
| "healthyMessage (PlayerJoined p) = healthyZones (ps_health p)"
| "healthyMessage (PlayerLeft ident) = True"
| "healthyMessage Unhandled = True"

text \<open>
  The operations on a client's vehicles, one at a time (physics integration, the
  collisions with the remote cars, the wall collision, the interpolation step, the
  receipt of a message) or as the whole tick, and a run of them. A message is healthy
  when every snapshot it carries has its zones within \<open>[0, 100]\<close>; the other
  operations carry no health of their own.
\<close>

datatype ClientOp =
    Integrate AnalogInput
  | Collide TickEnv
  | Walls real
  | Interpolate
  | Receive ServerMessage
  | Tick AnalogInput TickEnv

fun applyOp :: "Client \<Rightarrow> ClientOp \<Rightarrow> Client" where
  "applyOp c (Integrate input) =
     c\<lparr>playerCarRef := fst (updatePlayerCarPhysics (playerCarRef c) input)\<rparr>"
| "applyOp c (Collide env) = collideAll env c"
| "applyOp c (Walls r) = c\<lparr>playerCarRef := fst (handleWallCollisions (playerCarRef c) r)\<rparr>"
| "applyOp c Interpolate = c\<lparr>otherPlayersRef := interpolateOtherPlayers (otherPlayersRef c)\<rparr>"
| "applyOp c (Receive m) = onmessage c m"
| "applyOp c (Tick input env) = updatePhysics c input env"

fun healthyOp :: "ClientOp \<Rightarrow> bool" where
  "healthyOp (Receive m) = healthyMessage m"
| "healthyOp (Integrate input) = True"
| "healthyOp (Collide env) = True"
| "healthyOp (Walls r) = True"
| "healthyOp Interpolate = True"
| "healthyOp (Tick input env) = True"

text \<open>
  A snapshot whose zones are outside \<open>[0, 100]\<close>; a client whose car moves at speed 5
  into a tracked remote car 10 units ahead whose rear zone is down to 5; an
  environment whose clock is past the cooldown.
\<close>

definition snapshotBad :: PlayerState where
  "snapshotBad = snapshotA\<lparr>ps_health := \<lparr>front = 150, rear = - 5, left = 100, right = 100\<rparr>\<rparr>"

definition snapshotD :: PlayerState where
  "snapshotD = snapshotA\<lparr>ps_id := ''d'', ps_x := 10, ps_y := 0,
                 ps_health := \<lparr>front = 100, rear = 5, left = 100, right = 100\<rparr>\<rparr>"

definition clientHit :: Client where
  "clientHit = (initialClient 0 0 0 ''#e74c3c'')
     \<lparr>playerCarRef := carA,
      otherPlayersRef := [(''d'', newInterpolatedCar (playerStateToCar snapshotD))],
      playerCount := 2\<rparr>"

definition hitEnv :: TickEnv where
  "hitEnv = quietEnv\<lparr>clock := (\<lambda>k. 1000)\<rparr>"

section \<open>The relay\<close>

lemma truthyEntry_own: "ownProps players k \<noteq> None \<Longrightarrow> truthyEntry players k"
  by (auto simp: truthyEntry_def)

lemma truthyEntry_proto: "truthyEntry players ''__proto__''"
  by (simp add: truthyEntry_def stateProperty_def objectPrototypeKeys_def
      split: option.splits)

lemma assignEntry_own:
  "k \<noteq> ''__proto__'' \<Longrightarrow>
     ownProps (assignEntry players k st) = (ownProps players)(k \<mapsto> st)
     \<and> protoSlot (assignEntry players k st) = protoSlot players"
  by (simp add: assignEntry_def)

lemma assignEntry_other: "c \<noteq> k \<Longrightarrow> ownProps (assignEntry players k st) c = ownProps players c"
  by (simp add: assignEntry_def)

lemma assignEntry_proto:
  "ownProps players ''__proto__'' = None \<Longrightarrow>
     assignEntry players ''__proto__'' st = players\<lparr>protoSlot := Some st\<rparr>"
  by (simp add: assignEntry_def)

text \<open>
  C9. On an \<open>update\<close> message the relay overwrites the sender's stored roster entry
  with the payload state, its \<open>id\<close> re-stamped to the sender's connection id whatever
  id the payload claims; the entry of every other connection id is unchanged; and the
  one broadcast that follows carries the full roster and excludes nobody. The
  overwrite is guarded by the truthiness of \<open>this.players[sender.id]\<close>: a sender whose
  id is neither stored nor found along the prototype chain leaves the object as it
  was, and a sender with no stored entry whose id is found there, such as
  \<open>constructor\<close>, gets an entry stored by its first update. The roster never holds
  the key \<open>__proto__\<close>: an update from a connection of that name installs the state as
  the prototype and stores no entry.
\<close>

theorem update_restamps_sender:
  "(ownProps players sender \<noteq> None \<and> sender \<noteq> ''__proto__'' \<longrightarrow>
      ownProps (fst (onMessage players (Update st) sender r1 r2 r3)) sender
        = Some (st\<lparr>ps_id := sender\<rparr>))
   \<and> (\<forall>c. c \<noteq> sender \<longrightarrow>
      ownProps (fst (onMessage players (Update st) sender r1 r2 r3)) c = ownProps players c)
   \<and> snd (onMessage players (Update st) sender r1 r2 r3)
        = [(RelayPlayers (ownProps (fst (onMessage players (Update st) sender r1 r2 r3))), [])]
   \<and> (\<not> truthyEntry players sender \<longrightarrow>
      fst (onMessage players (Update st) sender r1 r2 r3) = players)
   \<and> (truthyEntry players sender \<and> sender \<noteq> ''__proto__'' \<longrightarrow>
      ownProps (fst (onMessage players (Update st) sender r1 r2 r3)) sender
        = Some (st\<lparr>ps_id := sender\<rparr>)
      \<and> protoSlot (fst (onMessage players (Update st) sender r1 r2 r3)) = protoSlot players)
   \<and> (ownProps players ''__proto__'' = None \<longrightarrow>
      fst (onMessage players (Update st) ''__proto__'' r1 r2 r3)
        = players\<lparr>protoSlot := Some (st\<lparr>ps_id := ''__proto__''\<rparr>)\<rparr>
      \<and> ownProps (fst (onMessage players (Join col) sender r1 r2 r3)) ''__proto__'' = None
      \<and> ownProps (fst (onMessage players (Update st) sender r1 r2 r3)) ''__proto__'' = None
      \<and> ownProps (fst (onMessage players Leave sender r1 r2 r3)) ''__proto__'' = None
      \<and> ownProps (fst (onClose players sender)) ''__proto__'' = None)"
proof -
  have other: "\<forall>c. c \<noteq> sender \<longrightarrow>
      ownProps (fst (onMessage players (Update st) sender r1 r2 r3)) c = ownProps players c"
    by (simp add: Let_def assignEntry_other)
  have stored: "truthyEntry players sender \<and> sender \<noteq> ''__proto__'' \<longrightarrow>
      ownProps (fst (onMessage players (Update st) sender r1 r2 r3)) sender
        = Some (st\<lparr>ps_id := sender\<rparr>)
      \<and> protoSlot (fst (onMessage players (Update st) sender r1 r2 r3)) = protoSlot players"
    by (simp add: Let_def assignEntry_own)
  have own: "ownProps players sender \<noteq> None \<and> sender \<noteq> ''__proto__'' \<longrightarrow>
      ownProps (fst (onMessage players (Update st) sender r1 r2 r3)) sender
        = Some (st\<lparr>ps_id := sender\<rparr>)"
    using stored truthyEntry_own [of players sender] by blast
  have cast: "snd (onMessage players (Update st) sender r1 r2 r3)
        = [(RelayPlayers (ownProps (fst (onMessage players (Update st) sender r1 r2 r3))), [])]"
    by (simp add: Let_def)
  have guard: "\<not> truthyEntry players sender \<longrightarrow>
      fst (onMessage players (Update st) sender r1 r2 r3) = players"
    by (simp add: Let_def)
  have proto: "ownProps players ''__proto__'' = None \<longrightarrow>
      fst (onMessage players (Update st) ''__proto__'' r1 r2 r3)
        = players\<lparr>protoSlot := Some (st\<lparr>ps_id := ''__proto__''\<rparr>)\<rparr>
      \<and> ownProps (fst (onMessage players (Join col) sender r1 r2 r3)) ''__proto__'' = None
      \<and> ownProps (fst (onMessage players (Update st) sender r1 r2 r3)) ''__proto__'' = None
      \<and> ownProps (fst (onMessage players Leave sender r1 r2 r3)) ''__proto__'' = None
      \<and> ownProps (fst (onClose players sender)) ''__proto__'' = None"
    by (simp add: Let_def assignEntry_def truthyEntry_proto deleteEntry_def onClose_def)
  from own other cast guard stored proto show ?thesis by blast
qed

theorem update_restamps_sender_witness:
  "ownProps \<lparr>ownProps = [''a'' \<mapsto> snapshotA], protoSlot = None\<rparr> ''a'' \<noteq> None
   \<and> ''a'' \<noteq> ''__proto__''
   \<and> ownProps (fst (onMessage \<lparr>ownProps = [''a'' \<mapsto> snapshotA], protoSlot = None\<rparr>
            (Update (snapshotA\<lparr>ps_id := ''intruder'', ps_x := 7\<rparr>)) ''a'' 0 0 0)) ''a''
       = Some (snapshotA\<lparr>ps_x := 7\<rparr>)
   \<and> ownProps (fst (onMessage \<lparr>ownProps = [''a'' \<mapsto> snapshotA], protoSlot = None\<rparr>
            (Update (snapshotA\<lparr>ps_id := ''intruder'', ps_x := 7\<rparr>)) ''a'' 0 0 0)) ''b''
       = None
   \<and> \<not> truthyEntry \<lparr>ownProps = [''a'' \<mapsto> snapshotA], protoSlot = None\<rparr> ''b''
   \<and> fst (onMessage \<lparr>ownProps = [''a'' \<mapsto> snapshotA], protoSlot = None\<rparr>
            (Update (snapshotA\<lparr>ps_id := ''intruder'', ps_x := 7\<rparr>)) ''b'' 0 0 0)
       = \<lparr>ownProps = [''a'' \<mapsto> snapshotA], protoSlot = None\<rparr>"
  using update_restamps_sender
    [of "\<lparr>ownProps = [''a'' \<mapsto> snapshotA], protoSlot = None\<rparr>" "''a''"
        "snapshotA\<lparr>ps_id := ''intruder'', ps_x := 7\<rparr>" 0 0 0 "''red''"]
    update_restamps_sender
    [of "\<lparr>ownProps = [''a'' \<mapsto> snapshotA], protoSlot = None\<rparr>" "''b''"
        "snapshotA\<lparr>ps_id := ''intruder'', ps_x := 7\<rparr>" 0 0 0 "''red''"]
  by (simp add: snapshotA_def truthyEntry_def objectPrototypeKeys_def)

text \<open>
  A connection named \<open>constructor\<close> that never joined: \<open>this.players['constructor']\<close>
  is the inherited function, so the guard passes and the first update stores an
  entry.
\<close>

lemma update_from_inherited_name:
  "ownProps emptyPlayers ''constructor'' = None
   \<and> truthyEntry emptyPlayers ''constructor''
   \<and> ownProps (fst (onMessage emptyPlayers (Update snapshotA) ''constructor'' 0 0 0))
        ''constructor''
       = Some (snapshotA\<lparr>ps_id := ''constructor''\<rparr>)
   \<and> \<not> truthyEntry emptyPlayers ''a''
   \<and> fst (onMessage emptyPlayers (Update snapshotA) ''a'' 0 0 0) = emptyPlayers"
  by (simp add: emptyPlayers_def truthyEntry_def objectPrototypeKeys_def assignEntry_def
      Let_def)

text \<open>
  After an update from a connection named \<open>__proto__\<close> the installed state is on the
  prototype chain, so a connection named after one of its truthy fields passes the
  guard too.
\<close>

lemma update_after_proto:
  "truthyEntry (fst (onMessage emptyPlayers (Update snapshotA) ''__proto__'' 0 0 0)) ''id''
   \<and> ownProps (fst (onMessage emptyPlayers (Update snapshotA) ''__proto__'' 0 0 0))
       = Map.empty
   \<and> \<not> truthyEntry (fst (onMessage emptyPlayers (Update snapshotA) ''__proto__'' 0 0 0)) ''a''"
  by (simp add: emptyPlayers_def truthyEntry_def objectPrototypeKeys_def assignEntry_def
      stateProperty_def Let_def)

section \<open>Angle normalisation\<close>

lemma wrapDown_id: "a \<le> pi \<Longrightarrow> wrapDown a = a"
  by (subst wrapDown.simps) simp

lemma wrapUp_id: "- pi \<le> a \<Longrightarrow> wrapUp a = a"
  by (subst wrapUp.simps) simp

lemma wrapDown_range: "wrapDown a \<le> pi \<and> (- pi \<le> a \<longrightarrow> - pi \<le> wrapDown a)"
proof (induction a rule: wrapDown.induct)
  case (1 a)
  show ?case
  proof (cases "a > pi")
    case True
    then have "wrapDown a = wrapDown (a - 2 * pi)" by (subst wrapDown.simps) simp
    moreover have "- pi \<le> a - 2 * pi" using True by simp
    ultimately show ?thesis using 1[OF True] by simp
  next
    case False
    then show ?thesis by (simp add: wrapDown_id)
  qed
qed

lemma wrapDown_shift: "\<exists>k::int. wrapDown a = a + 2 * pi * of_int k"
proof (induction a rule: wrapDown.induct)
  case (1 a)
  show ?case
  proof (cases "a > pi")
    case True
    then have e: "wrapDown a = wrapDown (a - 2 * pi)" by (subst wrapDown.simps) simp
    from 1[OF True] obtain k :: int where "wrapDown (a - 2 * pi) = a - 2 * pi + 2 * pi * of_int k"
      by blast
    then have "wrapDown a = a + 2 * pi * of_int (k - 1)"
      using e by (simp add: algebra_simps)
    then show ?thesis by blast
  next
    case False
    then have "wrapDown a = a + 2 * pi * of_int 0" by (simp add: wrapDown_id)
    then show ?thesis by blast
  qed
qed

lemma wrapUp_range: "- pi \<le> wrapUp a \<and> (a \<le> pi \<longrightarrow> wrapUp a \<le> pi)"
proof (induction a rule: wrapUp.induct)
  case (1 a)
  show ?case
  proof (cases "a < - pi")
    case True
    then have "wrapUp a = wrapUp (a + 2 * pi)" by (subst wrapUp.simps) simp
    moreover have "a + 2 * pi \<le> pi" using True by simp
    ultimately show ?thesis using 1[OF True] by simp
  next
    case False
    then show ?thesis by (simp add: wrapUp_id)
  qed
qed

lemma wrapUp_shift: "\<exists>k::int. wrapUp a = a + 2 * pi * of_int k"
proof (induction a rule: wrapUp.induct)
  case (1 a)
  show ?case
  proof (cases "a < - pi")
    case True
    then have e: "wrapUp a = wrapUp (a + 2 * pi)" by (subst wrapUp.simps) simp
    from 1[OF True] obtain k :: int where "wrapUp (a + 2 * pi) = a + 2 * pi + 2 * pi * of_int k"
      by blast
    then have "wrapUp a = a + 2 * pi * of_int (k + 1)"
      using e by (simp add: algebra_simps)
    then show ?thesis by blast
  next
    case False
    then have "wrapUp a = a + 2 * pi * of_int 0" by (simp add: wrapUp_id)
    then show ?thesis by blast
  qed
qed

lemma wrapAngle_range: "- pi \<le> wrapAngle a" "wrapAngle a \<le> pi"
  using wrapUp_range[of "wrapDown a"] wrapDown_range[of a] by (simp_all add: wrapAngle_def)

lemma wrapAngle_shift: "\<exists>k::int. wrapAngle a = a + 2 * pi * of_int k"
proof -
  obtain k :: int where k: "wrapDown a = a + 2 * pi * of_int k" using wrapDown_shift by blast
  obtain j :: int where j: "wrapUp (wrapDown a) = wrapDown a + 2 * pi * of_int j"
    using wrapUp_shift by blast
  have "wrapAngle a = wrapDown a + 2 * pi * of_int j"
    by (simp add: wrapAngle_def j)
  then have "wrapAngle a = a + 2 * pi * of_int (k + j)"
    by (simp add: k algebra_simps)
  then show ?thesis by blast
qed

lemma wrapAngle_id: "- pi \<le> a \<Longrightarrow> a \<le> pi \<Longrightarrow> wrapAngle a = a"
  by (simp add: wrapAngle_def wrapDown_id wrapUp_id)

lemma turns_zero:
  fixes y w :: real and m :: int
  assumes "w = y + 2 * pi * of_int m" "\<bar>y\<bar> < pi" "\<bar>w\<bar> \<le> pi"
  shows "m = 0"
proof -
  have "\<bar>2 * pi * of_int m\<bar> < 2 * pi" using assms by linarith
  then have "2 * pi * \<bar>of_int m :: real\<bar> < 2 * pi * 1"
    by (simp add: abs_mult)
  then have "\<bar>of_int m :: real\<bar> < 1"
    using pi_gt_zero by (simp only: mult_less_cancel_left_pos[of "2 * pi"] ) 
  then show ?thesis by linarith
qed




lemma bucket_quadrant: "- pi \<le> r \<Longrightarrow> r \<le> pi \<Longrightarrow> bucket r = quadrantZone r"
  unfolding bucket_def quadrantZone_def using pi_gt_zero
  by (auto simp: abs_if split: if_splits)

lemma getHitZone_bucket: "getHitZone car a = bucket (wrapAngle (a - angle car))"
  by (simp add: getHitZone_def bucket_def Let_def)

lemma bucket_pi: "bucket pi = Rear" "bucket (- pi) = Rear"
  unfolding bucket_def using pi_gt_zero by (auto simp del: pi_gt_zero)

lemma bucket_representative:
  fixes r w :: real and m :: int
  assumes "w = r + 2 * pi * of_int m" "- pi \<le> r" "r \<le> pi" "- pi \<le> w" "w \<le> pi"
  shows "bucket w = bucket r"
proof (cases "\<bar>r\<bar> < pi")
  case True
  then have "m = 0" using turns_zero[OF assms(1)] assms by simp
  then show ?thesis using assms by simp
next
  case False
  then have r: "r = pi \<or> r = - pi" using assms by linarith
  have "\<bar>w\<bar> = pi"
  proof (rule ccontr)
    assume "\<bar>w\<bar> \<noteq> pi"
    then have lt: "\<bar>w\<bar> < pi" using assms by linarith
    have "r = w + 2 * pi * of_int (- m)" using assms(1) by simp
    then have "- m = 0" using turns_zero[of r w "- m"] lt assms by simp
    then show False using assms(1) lt False by simp
  qed
  then have "w = pi \<or> w = - pi" by linarith
  then show ?thesis using r bucket_pi by auto
qed

lemma getHitZone_char:
  assumes "r = a - angle car + 2 * pi * of_int k" "- pi \<le> r" "r \<le> pi"
  shows "getHitZone car a = quadrantZone r"
proof -
  obtain j :: int where j: "wrapAngle (a - angle car) = a - angle car + 2 * pi * of_int j"
    using wrapAngle_shift by blast
  have "wrapAngle (a - angle car) = r + 2 * pi * of_int (j - k)"
    using j assms(1) by (simp add: algebra_simps)
  then have "bucket (wrapAngle (a - angle car)) = bucket r"
    using bucket_representative assms(2,3) wrapAngle_range by blast
  then show ?thesis using bucket_quadrant assms by (simp add: getHitZone_bucket)
qed

lemma getHitZone_at:
  assumes "- pi \<le> r" "r \<le> pi"
  shows "getHitZone car (angle car + r) = bucket r"
  using assms by (simp add: getHitZone_bucket wrapAngle_id)

lemma bucket_bounds:
  "bucket (pi / 4) = Right" "bucket (- pi / 4) = Front"
  "bucket (3 * pi / 4) = Rear" "bucket (- 3 * pi / 4) = Left"
  unfolding bucket_def using pi_gt_zero by (auto simp del: pi_gt_zero)

text \<open>
  In exact arithmetic \<open>getHitZone\<close> is total and classifies by quadrants. Every
  incidence angle has a representative of its angle relative to the heading in
  \<open>[-\<pi>, \<pi>]\<close>, and the zone returned is the quadrant of that representative,
  whichever representative is taken: front around \<open>0\<close>, right around \<open>\<pi>/2\<close>, left
  around \<open>-\<pi>/2\<close>, rear around \<open>\<plusminus>\<pi>\<close>. A boundary angle belongs to the bucket
  that starts there: \<open>\<pi>/4\<close> is right, \<open>-\<pi>/4\<close> is front, \<open>3\<pi>/4\<close> is rear,
  \<open>-3\<pi>/4\<close> is left.
\<close>

lemma getHitZone_quadrants:
  "(\<exists>k::int. - pi \<le> a - angle car + 2 * pi * of_int k
              \<and> a - angle car + 2 * pi * of_int k \<le> pi)
   \<and> (\<forall>k::int. - pi \<le> a - angle car + 2 * pi * of_int k
              \<and> a - angle car + 2 * pi * of_int k \<le> pi
        \<longrightarrow> getHitZone car a = quadrantZone (a - angle car + 2 * pi * of_int k))
   \<and> getHitZone car (angle car + pi / 4) = Right
   \<and> getHitZone car (angle car - pi / 4) = Front
   \<and> getHitZone car (angle car + 3 * pi / 4) = Rear
   \<and> getHitZone car (angle car - 3 * pi / 4) = Left
   \<and> getHitZone car (angle car + pi) = Rear
   \<and> getHitZone car (angle car - pi) = Rear"
proof (intro conjI)
  obtain j :: int where j: "wrapAngle (a - angle car) = a - angle car + 2 * pi * of_int j"
    using wrapAngle_shift by blast
  show "\<exists>k::int. - pi \<le> a - angle car + 2 * pi * of_int k
              \<and> a - angle car + 2 * pi * of_int k \<le> pi"
    using wrapAngle_range[of "a - angle car"] unfolding j by blast
  show "\<forall>k::int. - pi \<le> a - angle car + 2 * pi * of_int k
              \<and> a - angle car + 2 * pi * of_int k \<le> pi
        \<longrightarrow> getHitZone car a = quadrantZone (a - angle car + 2 * pi * of_int k)"
    using getHitZone_char by blast
  show "getHitZone car (angle car + pi / 4) = Right"
    using getHitZone_at[of "pi / 4" car] pi_gt_zero by (simp add: bucket_bounds)
  show "getHitZone car (angle car - pi / 4) = Front"
    using getHitZone_at[of "- pi / 4" car] pi_gt_zero bucket_bounds(2) by simp
  show "getHitZone car (angle car + 3 * pi / 4) = Rear"
    using getHitZone_at[of "3 * pi / 4" car] pi_gt_zero by (simp add: bucket_bounds)
  show "getHitZone car (angle car - 3 * pi / 4) = Left"
    using getHitZone_at[of "- 3 * pi / 4" car] pi_gt_zero bucket_bounds(4) by simp
  show "getHitZone car (angle car + pi) = Rear"
    using getHitZone_at[of "pi" car] pi_gt_zero by (simp add: bucket_pi)
  show "getHitZone car (angle car - pi) = Rear"
    using getHitZone_at[of "- pi" car] pi_gt_zero by (simp add: bucket_pi)
qed


lemma getHitZone_quadrants_example:
  "getHitZone (createCar 0 0 ''#e74c3c'' 0 False) (9 * pi / 4) = Right"
proof -
  let ?car = "createCar 0 0 ''#e74c3c'' 0 False"
  have a: "angle ?car = 0" by (simp add: createCar_def)
  have r: "9 * pi / 4 - angle ?car + 2 * pi * of_int (- 1) = pi / 4"
    by (simp add: a)
  have "- pi \<le> 9 * pi / 4 - angle ?car + 2 * pi * of_int (- 1)
        \<and> 9 * pi / 4 - angle ?car + 2 * pi * of_int (- 1) \<le> pi"
    unfolding r using pi_gt_zero by (simp del: pi_gt_zero)
  then have "getHitZone ?car (9 * pi / 4)
      = quadrantZone (9 * pi / 4 - angle ?car + 2 * pi * of_int (- 1))"
    using getHitZone_quadrants[of "9 * pi / 4" ?car] by blast
  also have "\<dots> = quadrantZone (pi / 4)" unfolding r ..
  also have "\<dots> = Right"
    unfolding quadrantZone_def using pi_gt_zero by (auto simp del: pi_gt_zero)
  finally show ?thesis .
qed

text \<open>
  The loops on doubles. In the binade of exponent \<open>56\<close>, from \<open>2 ^ 56\<close> (about
  \<open>7.2e16\<close>) up, neighbouring doubles are \<open>16\<close> apart, so \<open>a + 2 * Math.PI\<close> rounds
  back to \<open>a\<close> and the loop makes no progress.
\<close>

lemma toDouble_binade:
  assumes "2 powr (of_int e) \<le> \<bar>x\<bar>" "\<bar>x\<bar> < 2 powr (of_int (e + 1))"
  shows "toDouble x = 2 powr (of_int e - 52) * of_int (roundTiesEven (x / 2 powr (of_int e - 52)))"
proof -
  have "0 < (2::real) powr (of_int e)" by simp
  then have pos: "0 < \<bar>x\<bar>" using assms(1) by linarith
  then have nz: "x \<noteq> 0" by auto
  have "\<lfloor>log 2 \<bar>x\<bar>\<rfloor> = e"
    using floor_log_eq_powr_iff[of "\<bar>x\<bar>" 2 e] pos assms by simp
  then show ?thesis using nz by (simp add: toDouble_def Let_def)
qed

lemma toDouble_stuck: "toDouble (- (10 ^ 17) + 2 * MATH_PI) = - (10 ^ 17)"
proof -
  have b: "2 powr (of_int 56) \<le> \<bar>- (10 ^ 17) + 2 * MATH_PI\<bar>"
          "\<bar>- (10 ^ 17) + 2 * MATH_PI\<bar> < 2 powr (of_int (56 + 1))"
    by (simp_all add: MATH_PI_def)
  have u: "(2::real) powr (of_int 56 - 52) = 16" by simp
  have "roundTiesEven ((- (10 ^ 17) + 2 * MATH_PI) / 16) = - 6250000000000000"
    by (simp add: roundTiesEven_def MATH_PI_def Let_def)
  then show ?thesis using toDouble_binade[OF b] unfolding u by simp
qed

lemma toDouble_exact: "toDouble (- (10 ^ 17)) = - (10 ^ 17)"
proof -
  have b: "2 powr (of_int 56) \<le> \<bar>- (10 ^ 17) :: real\<bar>"
          "\<bar>- (10 ^ 17) :: real\<bar> < 2 powr (of_int (56 + 1))"
    by simp_all
  have u: "(2::real) powr (of_int 56 - 52) = 16" by simp
  have "roundTiesEven ((- (10 ^ 17)) / 16) = - 6250000000000000"
    by (simp add: roundTiesEven_def Let_def)
  then show ?thesis using toDouble_binade[OF b] unfolding u by simp
qed

lemma toDouble_one: "toDouble 1 = 1"
proof -
  have b: "2 powr (of_int 0) \<le> \<bar>1 :: real\<bar>" "\<bar>1 :: real\<bar> < 2 powr (of_int (0 + 1))"
    by simp_all
  have u: "(2::real) powr (of_int 0 - 52) = 1 / 2 ^ 52"
    by (simp add: powr_minus_divide)
  have "roundTiesEven (1 / (1 / 2 ^ 52)) = 2 ^ 52"
    by (simp add: roundTiesEven_def Let_def)
  then show ?thesis using toDouble_binade[OF b] unfolding u by simp
qed

lemma toDouble_three_pi: "toDouble (3 * MATH_PI) = 3 * MATH_PI"
proof -
  have b: "2 powr (of_int 3) \<le> \<bar>3 * MATH_PI\<bar>" "\<bar>3 * MATH_PI\<bar> < 2 powr (of_int (3 + 1))"
    by (simp_all add: MATH_PI_def)
  have u: "(2::real) powr (of_int 3 - 52) = 1 / 2 ^ 49"
    by (simp add: powr_minus_divide)
  have "roundTiesEven (3 * MATH_PI / (1 / 2 ^ 49)) = 5305678314021330"
    by (simp add: roundTiesEven_def Let_def MATH_PI_def)
  then show ?thesis using toDouble_binade[OF b] unfolding u by (simp add: MATH_PI_def)
qed

lemma wrapUpDouble_never: "wrapUpDouble (- (10 ^ 17)) = None"
proof (rule ccontr)
  assume "wrapUpDouble (- (10 ^ 17)) \<noteq> None"
  then obtain y where y: "wrapUpDouble (- (10 ^ 17)) = Some y" by auto
  have "- (10 ^ 17) \<noteq> (- (10 ^ 17) :: real)"
  proof (rule wrapUpDouble.raw_induct[where P = "\<lambda>a y. a \<noteq> - (10 ^ 17)", OF _ y])
    fix f a y
    assume ih: "\<And>a y. f a = Some y \<Longrightarrow> a \<noteq> - (10 ^ 17)"
      and st: "(if a < - MATH_PI then f (toDouble (a + 2 * MATH_PI)) else Some a) = Some y"
    show "a \<noteq> - (10 ^ 17)"
    proof
      assume e: "a = - (10 ^ 17)"
      have "a < - MATH_PI" by (simp add: e MATH_PI_def)
      then have "f (toDouble (a + 2 * MATH_PI)) = Some y" using st by simp
      then have "f (- (10 ^ 17)) = Some y" using toDouble_stuck by (simp add: e)
      then show False using ih by blast
    qed
  qed
  then show False by simp
qed

lemma wrapDownDouble_id: "a \<le> MATH_PI \<Longrightarrow> wrapDownDouble a = Some a"
  by (subst wrapDownDouble.simps) simp

lemma wrapUpDouble_id: "- MATH_PI \<le> a \<Longrightarrow> wrapUpDouble a = Some a"
  by (subst wrapUpDouble.simps) simp

lemma getHitZoneDouble_example:
  "getHitZoneDouble (createCar 0 0 ''#e74c3c'' 0 False) 1 = Some Right"
proof -
  have a: "angle (createCar 0 0 ''#e74c3c'' 0 False) = 0" by (simp add: createCar_def)
  have d: "wrapDownDouble 1 = Some 1" by (rule wrapDownDouble_id) (simp add: MATH_PI_def)
  have u: "wrapUpDouble 1 = Some 1" by (rule wrapUpDouble_id) (simp add: MATH_PI_def)
  show ?thesis
    unfolding getHitZoneDouble_def a
    by (simp add: toDouble_one d u toDouble_three_pi) (simp add: MATH_PI_def)
qed

text \<open>
  C2. On doubles \<open>getHitZone\<close> is not total on the finite angles. A remote car takes
  its heading from a snapshot as it comes; with the heading \<open>1e17\<close> and the incidence
  angle \<open>0\<close> the relative angle is \<open>-1e17\<close>, the step of the second loop rounds
  \<open>-1e17 + 2 * Math.PI\<close> back to \<open>-1e17\<close>, and the loop never ends: the function
  returns no zone.
\<close>

theorem getHitZone_never_returns:
  "angle (playerStateToCar (snapshotA\<lparr>ps_angle := 10 ^ 17\<rparr>)) = 10 ^ 17
   \<and> getHitZoneDouble (playerStateToCar (snapshotA\<lparr>ps_angle := 10 ^ 17\<rparr>)) 0 = None
   \<and> toDouble (- (10 ^ 17) + 2 * MATH_PI) = - (10 ^ 17)
   \<and> wrapUpDouble (- (10 ^ 17)) = None"
proof -
  have a: "angle (playerStateToCar (snapshotA\<lparr>ps_angle := 10 ^ 17\<rparr>)) = 10 ^ 17"
    by (simp add: playerStateToCar_def)
  have d: "wrapDownDouble (- (10 ^ 17)) = Some (- (10 ^ 17))"
    by (rule wrapDownDouble_id) (simp add: MATH_PI_def)
  have r: "toDouble (0 - 10 ^ 17) = - (10 ^ 17)" using toDouble_exact by simp
  have "getHitZoneDouble (playerStateToCar (snapshotA\<lparr>ps_angle := 10 ^ 17\<rparr>)) 0 = None"
    unfolding getHitZoneDouble_def a r d using wrapUpDouble_never by simp
  then show ?thesis using a toDouble_stuck wrapUpDouble_never by simp
qed

section \<open>Collision resolution\<close>

lemma getHitZone_angle_only: "angle c' = angle c \<Longrightarrow> getHitZone c' a = getHitZone c a"
  by (simp add: getHitZone_def)

lemma separateCars_keeps:
  "vx (fst (separateCars p t nx ny f)) = vx p" "vy (fst (separateCars p t nx ny f)) = vy p"
  "vx (snd (separateCars p t nx ny f)) = vx t" "vy (snd (separateCars p t nx ny f)) = vy t"
  "angle (fst (separateCars p t nx ny f)) = angle p"
  "angle (snd (separateCars p t nx ny f)) = angle t"
  "health (fst (separateCars p t nx ny f)) = health p"
  "health (snd (separateCars p t nx ny f)) = health t"
  "angularVel (fst (separateCars p t nx ny f)) = angularVel p"
  "angularVel (snd (separateCars p t nx ny f)) = angularVel t"
  by (simp_all add: separateCars_def)

lemma bounceCars_keeps:
  "angle (fst (bounceCars p t nx ny ic)) = angle p"
  "angle (snd (bounceCars p t nx ny ic)) = angle t"
  "health (fst (bounceCars p t nx ny ic)) = health p"
  "health (snd (bounceCars p t nx ny ic)) = health t"
  "pos_x (fst (bounceCars p t nx ny ic)) = pos_x p"
  "pos_x (snd (bounceCars p t nx ny ic)) = pos_x t"
  "pos_y (fst (bounceCars p t nx ny ic)) = pos_y p"
  "pos_y (snd (bounceCars p t nx ny ic)) = pos_y t"
  "angularVel (fst (bounceCars p t nx ny ic)) = angularVel p"
  "angularVel (snd (bounceCars p t nx ny ic)) = angularVel t"
  by (simp_all add: bounceCars_def Let_def)

lemma kickCars_keeps:
  "angle (fst (kickCars p t r1 r2)) = angle p"
  "angle (snd (kickCars p t r1 r2)) = angle t"
  "health (fst (kickCars p t r1 r2)) = health p"
  "health (snd (kickCars p t r1 r2)) = health t"
  "pos_x (fst (kickCars p t r1 r2)) = pos_x p"
  "pos_x (snd (kickCars p t r1 r2)) = pos_x t"
  "pos_y (fst (kickCars p t r1 r2)) = pos_y p"
  "pos_y (snd (kickCars p t r1 r2)) = pos_y t"
  "vx (fst (kickCars p t r1 r2)) = vx p" "vy (fst (kickCars p t r1 r2)) = vy p"
  "vx (snd (kickCars p t r1 r2)) = vx t" "vy (snd (kickCars p t r1 r2)) = vy t"
  by (simp_all add: kickCars_def)

lemma damageCars_result:
  "health (fst (damageCars p t s a popups))
     = setZone (health p) (getHitZone p a)
         (max 0 (getZone (health p) (getHitZone p a)
                  - of_int (round ((s - 2) * 3)) * (15 / 100)))"
  "health (fst (snd (damageCars p t s a popups)))
     = setZone (health t) (getHitZone t (a + pi))
         (max 0 (getZone (health t) (getHitZone t (a + pi)) - of_int (round ((s - 2) * 3))))"
  "snd (snd (damageCars p t s a popups))
     = popups @ [\<lparr>popup_x = (pos_x p + pos_x t) / 2, popup_y = (pos_y p + pos_y t) / 2 - 20,
                   damage = of_int (round ((s - 2) * 3)), zone = getHitZone t (a + pi),
                   age = 0\<rparr>]"
  "pos_x (fst (damageCars p t s a popups)) = pos_x p"
  "pos_y (fst (damageCars p t s a popups)) = pos_y p"
  "pos_x (fst (snd (damageCars p t s a popups))) = pos_x t"
  "pos_y (fst (snd (damageCars p t s a popups))) = pos_y t"
  by (simp_all add: damageCars_def Let_def MIN_IMPACT_FOR_DAMAGE_def DAMAGE_MULTIPLIER_def
      ATTACKER_DAMAGE_RATIO_def)

lemmas step_keeps = separateCars_keeps bounceCars_keeps kickCars_keeps

lemma resolve_damage:
  assumes "\<not> now - lastTime < 150"
      and "\<bar>(vx p - vx t) * (dx / distance) + (vy p - vy t) * (dy / distance)\<bar> > 2"
  shows "(let r = resolveCollision p t dx dy distance minDist lastTime popups r1 r2 now;
              D = of_int (round ((\<bar>(vx p - vx t) * (dx / distance)
                                   + (vy p - vy t) * (dy / distance)\<bar> - 2) * 3));
              playerZone = getHitZone p (atan2 dy dx);
              targetZone = getHitZone t (atan2 dy dx + pi)
          in health (fst r)
               = setZone (health p) playerZone
                   (max 0 (getZone (health p) playerZone - D * (15 / 100)))
           \<and> health (fst (snd r))
               = setZone (health t) targetZone (max 0 (getZone (health t) targetZone - D))
           \<and> fst (snd (snd r))
               = popups @ [\<lparr>popup_x = (pos_x (fst r) + pos_x (fst (snd r))) / 2,
                            popup_y = (pos_y (fst r) + pos_y (fst (snd r))) / 2 - 20,
                            damage = D, zone = targetZone, age = 0\<rparr>]
           \<and> snd (snd (snd r)) = now)"
proof -
  have z: "getHitZone (fst (kickCars (fst (bounceCars (fst (separateCars p t nx ny f))
               (snd (separateCars p t nx ny f)) nx ny ic))
             (snd (bounceCars (fst (separateCars p t nx ny f))
               (snd (separateCars p t nx ny f)) nx ny ic)) r1 r2)) a = getHitZone p a"
      "getHitZone (snd (kickCars (fst (bounceCars (fst (separateCars p t nx ny f))
               (snd (separateCars p t nx ny f)) nx ny ic))
             (snd (bounceCars (fst (separateCars p t nx ny f))
               (snd (separateCars p t nx ny f)) nx ny ic)) r1 r2)) a = getHitZone t a"
    for nx ny f ic a
    by (rule getHitZone_angle_only, simp add: step_keeps)+
  show ?thesis
    using assms unfolding resolveCollision_def Let_def
    by (simp add: step_keeps damageCars_result z MIN_IMPACT_FOR_DAMAGE_def)
qed



lemma handleCarCollision_hit:
  assumes "checkCarCollision p t"
      and "sqrt ((pos_x t - pos_x p) * (pos_x t - pos_x p)
               + (pos_y t - pos_y p) * (pos_y t - pos_y p)) \<noteq> 0"
  shows "handleCarCollision p t lastTime popups r1 r2 now
           = resolveCollision p t (pos_x t - pos_x p) (pos_y t - pos_y p)
               (sqrt ((pos_x t - pos_x p) * (pos_x t - pos_x p)
                    + (pos_y t - pos_y p) * (pos_y t - pos_y p)))
               (((width p + width t) / 2) * (85 / 100)) lastTime popups r1 r2 now"
proof -
  have "sqrt ((pos_x t - pos_x p) * (pos_x t - pos_x p)
            + (pos_y t - pos_y p) * (pos_y t - pos_y p))
          < ((width p + width t) / 2) * (85 / 100)"
    using assms(1) unfolding checkCarCollision_def Let_def .
  then have "\<not> (sqrt ((pos_x t - pos_x p) * (pos_x t - pos_x p)
            + (pos_y t - pos_y p) * (pos_y t - pos_y p))
          \<ge> ((width p + width t) / 2) * (85 / 100)
        \<or> sqrt ((pos_x t - pos_x p) * (pos_x t - pos_x p)
            + (pos_y t - pos_y p) * (pos_y t - pos_y p)) = 0)"
    using assms(2) by (simp only: not_le de_Morgan_disj simp_thms)
  then show ?thesis
    using assms(1) unfolding handleCarCollision_def Let_def
    by (simp only: simp_thms if_False if_True)
qed

lemma handleCarCollision_apart:
  "\<not> checkCarCollision p t
   \<Longrightarrow> handleCarCollision p t lastTime popups r1 r2 now = (p, t, popups, lastTime)"
  by (simp add: handleCarCollision_def)

lemma handleCarCollision_coincident:
  "sqrt ((pos_x t - pos_x p) * (pos_x t - pos_x p)
       + (pos_y t - pos_y p) * (pos_y t - pos_y p)) = 0
   \<Longrightarrow> handleCarCollision p t lastTime popups r1 r2 now = (p, t, popups, lastTime)"
  unfolding handleCarCollision_def Let_def by simp

lemma sqrt_100: "sqrt 100 = 10"
  using real_sqrt_abs[of 10] by simp

lemma zone_front: "getHitZone (createCar x y c 0 s) 0 = Front"
  using pi_gt_zero
  by (simp add: getHitZone_def createCar_def wrapAngle_id del: pi_gt_zero)


lemma carAB_overlap: "checkCarCollision carA carB"
  by (simp add: checkCarCollision_def carA_def carB_def createCar_def CAR_WIDTH_def sqrt_100)

lemma carCB_overlap: "checkCarCollision carC carB"
  by (simp add: checkCarCollision_def carC_def carB_def createCar_def CAR_WIDTH_def sqrt_100)



lemma carA_zone: "getHitZone carA 0 = Front"
  using zone_front[of 0 0 "''#e74c3c''" False]
  by (simp add: carA_def getHitZone_def createCar_def)


lemma carCB_resolve:
  "handleCarCollision carC carB 0 [] 0 0 1000
     = resolveCollision carC carB 10 0 10 (85 / 2) 0 [] 0 0 1000"
proof -
  have nz: "sqrt ((pos_x carB - pos_x carC) * (pos_x carB - pos_x carC)
               + (pos_y carB - pos_y carC) * (pos_y carB - pos_y carC)) \<noteq> 0"
    by (simp add: carC_def carB_def createCar_def sqrt_100)
  show ?thesis
    unfolding handleCarCollision_hit[OF carCB_overlap nz]
    by (simp add: carC_def carB_def createCar_def sqrt_100 CAR_WIDTH_def)
qed

lemma resolve_at_rest:
  assumes "vx p = 0" "vy p = 0" "vx t = 0" "vy t = 0"
  shows "resolveCollision p t dx dy distance minDist lastTime popups r1 r2 now
           = (p\<lparr>pos_x := pos_x p - (dx / distance) * (minDist - distance + 2) * (6 / 10),
                 pos_y := pos_y p - (dy / distance) * (minDist - distance + 2) * (6 / 10),
                 angularVel := angularVel p + (r1 - 1 / 2) * (1 / 10)\<rparr>,
              t\<lparr>pos_x := pos_x t + (dx / distance) * (minDist - distance + 2) * (4 / 10),
                 pos_y := pos_y t + (dy / distance) * (minDist - distance + 2) * (4 / 10),
                 angularVel := angularVel t + (r2 - 1 / 2) * (12 / 100)\<rparr>,
              popups, lastTime)"
  using assms
  by (simp add: resolveCollision_def separateCars_def bounceCars_def kickCars_def Let_def
      MIN_IMPACT_FOR_DAMAGE_def)





text \<open>
  C7 as the specification states it (two cars at rest make collision resolution a
  no-op) fails: two overlapping cars at rest are still pushed apart and still receive
  their random angular kicks.
\<close>

theorem zero_velocity_counterexample:
  "vx carC = 0 \<and> vy carC = 0 \<and> vx carB = 0 \<and> vy carB = 0
   \<and> checkCarCollision carC carB
   \<and> pos_x carC = 0
   \<and> pos_x (fst (handleCarCollision carC carB 0 [] 0 0 1000)) = - 207 / 10
   \<and> pos_x carB = 10
   \<and> pos_x (fst (snd (handleCarCollision carC carB 0 [] 0 0 1000))) = 238 / 10
   \<and> angularVel carC = 0
   \<and> angularVel (fst (handleCarCollision carC carB 0 [] 0 0 1000)) = - 1 / 20"
proof -
  have "vx carC = 0 \<and> vy carC = 0 \<and> vx carB = 0 \<and> vy carB = 0
      \<and> pos_x carC = 0 \<and> pos_x carB = 10 \<and> angularVel carC = 0"
    by (simp add: carC_def carB_def createCar_def)
  moreover have "pos_x (fst (handleCarCollision carC carB 0 [] 0 0 1000)) = - 207 / 10
      \<and> pos_x (fst (snd (handleCarCollision carC carB 0 [] 0 0 1000))) = 238 / 10
      \<and> angularVel (fst (handleCarCollision carC carB 0 [] 0 0 1000)) = - 1 / 20"
    unfolding carCB_resolve
    by (simp add: resolveCollision_def separateCars_def bounceCars_def kickCars_def
        Let_def carC_def carB_def createCar_def MIN_IMPACT_FOR_DAMAGE_def)
  ultimately show ?thesis using carCB_overlap by simp
qed

text \<open>
  C7, amended. For two cars at rest collision resolution applies no damage: the health
  of both, the popups and the collision time returned are unchanged, and both
  velocities stay zero; nothing but position and angular velocity can change. When the
  cars do not overlap nothing changes at all; when they overlap (with distinct centres)
  they are pushed apart along the line of centres, 60/40, and each angular velocity
  receives its random kick.
\<close>

theorem zero_velocity_no_damage:
  assumes "vx p = 0" "vy p = 0" "vx t = 0" "vy t = 0"
  shows "(let r = handleCarCollision p t lastTime popups r1 r2 now;
              dx = pos_x t - pos_x p;
              dy = pos_y t - pos_y p;
              distance = sqrt (dx * dx + dy * dy);
              push = ((width p + width t) / 2) * (85 / 100) - distance + 2
          in health (fst r) = health p \<and> health (fst (snd r)) = health t
           \<and> fst (snd (snd r)) = popups \<and> snd (snd (snd r)) = lastTime
           \<and> vx (fst r) = 0 \<and> vy (fst r) = 0
           \<and> vx (fst (snd r)) = 0 \<and> vy (fst (snd r)) = 0
           \<and> (fst r)\<lparr>pos_x := pos_x p, pos_y := pos_y p, angularVel := angularVel p\<rparr> = p
           \<and> (fst (snd r))\<lparr>pos_x := pos_x t, pos_y := pos_y t, angularVel := angularVel t\<rparr> = t
           \<and> (\<not> checkCarCollision p t \<longrightarrow> fst r = p \<and> fst (snd r) = t)
           \<and> (checkCarCollision p t \<and> distance \<noteq> 0 \<longrightarrow>
                pos_x (fst r) = pos_x p - (dx / distance) * push * (6 / 10)
              \<and> pos_y (fst r) = pos_y p - (dy / distance) * push * (6 / 10)
              \<and> pos_x (fst (snd r)) = pos_x t + (dx / distance) * push * (4 / 10)
              \<and> pos_y (fst (snd r)) = pos_y t + (dy / distance) * push * (4 / 10)
              \<and> angularVel (fst r) = angularVel p + (r1 - 1 / 2) * (1 / 10)
              \<and> angularVel (fst (snd r)) = angularVel t + (r2 - 1 / 2) * (12 / 100)))"
proof -
  define d where "d = sqrt ((pos_x t - pos_x p) * (pos_x t - pos_x p)
                          + (pos_y t - pos_y p) * (pos_y t - pos_y p))"
  consider (apart) "\<not> checkCarCollision p t" | (same) "checkCarCollision p t" "d = 0"
    | (hit) "checkCarCollision p t" "d \<noteq> 0"
    by blast
  then show ?thesis
  proof cases
    case apart
    then show ?thesis
      using assms by (simp add: handleCarCollision_apart Let_def)
  next
    case same
    have "handleCarCollision p t lastTime popups r1 r2 now = (p, t, popups, lastTime)"
      using same(2) unfolding d_def by (rule handleCarCollision_coincident)
    then show ?thesis
      using assms same unfolding Let_def d_def[symmetric] by simp
  next
    case hit
    have "handleCarCollision p t lastTime popups r1 r2 now
            = resolveCollision p t (pos_x t - pos_x p) (pos_y t - pos_y p) d
                (((width p + width t) / 2) * (85 / 100)) lastTime popups r1 r2 now"
      using handleCarCollision_hit[OF hit(1)] hit(2) unfolding d_def by blast
    then show ?thesis
      using assms hit unfolding Let_def d_def[symmetric]
      by (simp add: resolve_at_rest)
  qed
qed

theorem zero_velocity_no_damage_witness:
  "health (fst (handleCarCollision carC carB 0 [] 0 0 1000)) = health carC
   \<and> health (fst (snd (handleCarCollision carC carB 0 [] 0 0 1000))) = health carB
   \<and> fst (snd (snd (handleCarCollision carC carB 0 [] 0 0 1000))) = []
   \<and> snd (snd (snd (handleCarCollision carC carB 0 [] 0 0 1000))) = 0
   \<and> vx (fst (handleCarCollision carC carB 0 [] 0 0 1000)) = 0
   \<and> vy (fst (snd (handleCarCollision carC carB 0 [] 0 0 1000))) = 0"
proof -
  have v: "vx carC = 0" "vy carC = 0" "vx carB = 0" "vy carB = 0"
    by (simp_all add: carC_def carB_def createCar_def)
  show ?thesis
    using zero_velocity_no_damage[OF v, of 0 "[]" 0 0 1000]
    unfolding Let_def by blast
qed


section \<open>The static flag\<close>

lemma wallStep_inside: "cornerInside k \<Longrightarrow> wallStep s k = s"
  by (simp add: cornerInside_def wallStep_def leftWall_def rightWall_def topWall_def
      bottomWall_def)

lemma foldl_wallStep_inside: "list_all cornerInside ks \<Longrightarrow> foldl wallStep s ks = s"
  by (induction ks) (simp_all add: wallStep_inside)

lemma handleWallCollisions_inside:
  "cornersInside car \<Longrightarrow> handleWallCollisions car r = (car, False)"
  by (simp add: handleWallCollisions_def cornersInside_def foldl_wallStep_inside)

lemma hitWall_static:
  "hitLeftWall (car\<lparr>isStatic := s\<rparr>) c = (hitLeftWall car c)\<lparr>isStatic := s\<rparr>"
  "hitRightWall (car\<lparr>isStatic := s\<rparr>) c = (hitRightWall car c)\<lparr>isStatic := s\<rparr>"
  "hitTopWall (car\<lparr>isStatic := s\<rparr>) c = (hitTopWall car c)\<lparr>isStatic := s\<rparr>"
  "hitBottomWall (car\<lparr>isStatic := s\<rparr>) c = (hitBottomWall car c)\<lparr>isStatic := s\<rparr>"
  by (simp_all add: hitLeftWall_def hitRightWall_def hitTopWall_def hitBottomWall_def Let_def)

lemma wall_static:
  "leftWall c (apfst (isStatic_update (\<lambda>_. s)) st) = apfst (isStatic_update (\<lambda>_. s)) (leftWall c st)"
  "rightWall c (apfst (isStatic_update (\<lambda>_. s)) st) = apfst (isStatic_update (\<lambda>_. s)) (rightWall c st)"
  "topWall c (apfst (isStatic_update (\<lambda>_. s)) st) = apfst (isStatic_update (\<lambda>_. s)) (topWall c st)"
  "bottomWall c (apfst (isStatic_update (\<lambda>_. s)) st) = apfst (isStatic_update (\<lambda>_. s)) (bottomWall c st)"
  by (cases st; simp add: leftWall_def rightWall_def topWall_def bottomWall_def hitWall_static)+

lemma wallStep_static:
  "wallStep (apfst (isStatic_update (\<lambda>_. s)) st) k = apfst (isStatic_update (\<lambda>_. s)) (wallStep st k)"
  by (simp only: wallStep_def wall_static)

lemma foldl_wallStep_static:
  "foldl wallStep (apfst (isStatic_update (\<lambda>_. s)) st) ks
     = apfst (isStatic_update (\<lambda>_. s)) (foldl wallStep st ks)"
  by (induction ks arbitrary: st) (simp_all add: wallStep_static)

lemma handleWallCollisions_static:
  "handleWallCollisions (car\<lparr>isStatic := s\<rparr>) r
     = ((fst (handleWallCollisions car r))\<lparr>isStatic := s\<rparr>, snd (handleWallCollisions car r))"
proof -
  have c: "getCarCorners (car\<lparr>isStatic := s\<rparr>) = getCarCorners car"
    by (simp add: getCarCorners_def)
  have e: "(car\<lparr>isStatic := s\<rparr>, False) = apfst (isStatic_update (\<lambda>_. s)) (car, False)"
    by simp
  show ?thesis
    unfolding handleWallCollisions_def c e foldl_wallStep_static Let_def
    by simp
qed

lemma steps_static:
  "separateCars (p\<lparr>isStatic := a\<rparr>) (t\<lparr>isStatic := b\<rparr>) nx ny f
     = ((fst (separateCars p t nx ny f))\<lparr>isStatic := a\<rparr>,
        (snd (separateCars p t nx ny f))\<lparr>isStatic := b\<rparr>)"
  "bounceCars (p\<lparr>isStatic := a\<rparr>) (t\<lparr>isStatic := b\<rparr>) nx ny ic
     = ((fst (bounceCars p t nx ny ic))\<lparr>isStatic := a\<rparr>,
        (snd (bounceCars p t nx ny ic))\<lparr>isStatic := b\<rparr>)"
  "kickCars (p\<lparr>isStatic := a\<rparr>) (t\<lparr>isStatic := b\<rparr>) r1 r2
     = ((fst (kickCars p t r1 r2))\<lparr>isStatic := a\<rparr>,
        (snd (kickCars p t r1 r2))\<lparr>isStatic := b\<rparr>)"
  "damageCars (p\<lparr>isStatic := a\<rparr>) (t\<lparr>isStatic := b\<rparr>) sp ang popups
     = ((fst (damageCars p t sp ang popups))\<lparr>isStatic := a\<rparr>,
        (fst (snd (damageCars p t sp ang popups)))\<lparr>isStatic := b\<rparr>,
        snd (snd (damageCars p t sp ang popups)))"
  by (simp_all add: separateCars_def bounceCars_def kickCars_def damageCars_def Let_def
      getHitZone_def)

lemma resolveCollision_static:
  "resolveCollision (p\<lparr>isStatic := a\<rparr>) (t\<lparr>isStatic := b\<rparr>) dx dy d m lastTime popups r1 r2 now
     = (let r = resolveCollision p t dx dy d m lastTime popups r1 r2 now
        in ((fst r)\<lparr>isStatic := a\<rparr>, (fst (snd r))\<lparr>isStatic := b\<rparr>, snd (snd r)))"
  unfolding resolveCollision_def Let_def
  by (simp add: steps_static)

lemma handleCarCollision_static:
  "handleCarCollision (p\<lparr>isStatic := a\<rparr>) (t\<lparr>isStatic := b\<rparr>) lastTime popups r1 r2 now
     = (let r = handleCarCollision p t lastTime popups r1 r2 now
        in ((fst r)\<lparr>isStatic := a\<rparr>, (fst (snd r))\<lparr>isStatic := b\<rparr>, snd (snd r)))"
proof -
  have c: "checkCarCollision (p\<lparr>isStatic := a\<rparr>) (t\<lparr>isStatic := b\<rparr>) = checkCarCollision p t"
    by (simp add: checkCarCollision_def)
  show ?thesis
    unfolding handleCarCollision_def c Let_def
    by (simp add: resolveCollision_static Let_def)
qed


lemma damageCars_motion:
  "vx (fst (snd (damageCars p t s a popups))) = vx t"
  "angularVel (fst (snd (damageCars p t s a popups))) = angularVel t"
  by (simp_all add: damageCars_def Let_def)

lemma carAB_resolve:
  "handleCarCollision carA carB 0 [] 0 0 1000
     = resolveCollision carA carB 10 0 10 (85 / 2) 0 [] 0 0 1000"
proof -
  have nz: "sqrt ((pos_x carB - pos_x carA) * (pos_x carB - pos_x carA)
               + (pos_y carB - pos_y carA) * (pos_y carB - pos_y carA)) \<noteq> 0"
    by (simp add: carA_def carB_def createCar_def sqrt_100)
  show ?thesis
    unfolding handleCarCollision_hit[OF carAB_overlap nz]
    by (simp add: carA_def carB_def createCar_def sqrt_100 CAR_WIDTH_def)
qed

text \<open>
  C8 as the specification states it (a static vehicle is left alone by collision
  resolution and by wall collision) fails: a static car that is hit is displaced,
  accelerated and spun, and a static car with corners beyond a wall is pushed back in.
\<close>

theorem static_flag_counterexample:
  "isStatic carB
   \<and> pos_x carB = 10 \<and> vx carB = 0 \<and> angularVel carB = 0
   \<and> pos_x (fst (snd (handleCarCollision carA carB 0 [] 0 0 1000))) = 238 / 10
   \<and> vx (fst (snd (handleCarCollision carA carB 0 [] 0 0 1000))) = 28 / 10
   \<and> angularVel (fst (snd (handleCarCollision carA carB 0 [] 0 0 1000))) = - 6 / 100
   \<and> isStatic carS
   \<and> pos_x carS = 10 \<and> angularVel carS = 0
   \<and> pos_x (fst (handleWallCollisions carS 0)) = 80
   \<and> angularVel (fst (handleWallCollisions carS 0)) = - 1 / 20"
proof -
  have 0: "isStatic carB \<and> pos_x carB = 10 \<and> vx carB = 0 \<and> angularVel carB = 0
     \<and> isStatic carS \<and> pos_x carS = 10 \<and> angularVel carS = 0"
    by (simp add: carB_def carS_def createCar_def)
  have 1: "pos_x (fst (snd (handleCarCollision carA carB 0 [] 0 0 1000))) = 238 / 10
   \<and> vx (fst (snd (handleCarCollision carA carB 0 [] 0 0 1000))) = 28 / 10
   \<and> angularVel (fst (snd (handleCarCollision carA carB 0 [] 0 0 1000))) = - 6 / 100"
    unfolding carAB_resolve resolveCollision_def Let_def
    by (simp add: damageCars_result damageCars_motion separateCars_def bounceCars_def
        kickCars_def carA_def carB_def createCar_def MIN_IMPACT_FOR_DAMAGE_def)
  have k: "getCarCorners carS = [(35, 915), (35, 885), (- 15, 885), (- 15, 915)]"
    by (simp add: getCarCorners_def carS_def createCar_def CAR_WIDTH_def CAR_HEIGHT_def)
  have 2: "pos_x (fst (handleWallCollisions carS 0)) = 80
   \<and> angularVel (fst (handleWallCollisions carS 0)) = - 1 / 20"
    unfolding handleWallCollisions_def k Let_def
    by (simp add: wallStep_def leftWall_def rightWall_def topWall_def bottomWall_def
        carS_def createCar_def
        WALL_THICKNESS_def WORLD_WIDTH_def WORLD_HEIGHT_def
        hitLeftWall_def hitRightWall_def hitTopWall_def hitBottomWall_def
        BOUNCE_FACTOR_def COLLISION_DAMPING_def Let_def)
  show ?thesis using 0 1 2 by blast
qed

text \<open>
  C8, amended. \<open>isStatic\<close> is carried along unchanged and never consulted: collision
  resolution (on either side) and wall collision do to a static car exactly what they
  do to the same car with the flag cleared. A static car is left as it is by wall
  collision when all its corners are within the inset bounds, and by collision
  resolution when it does not overlap the other car.
\<close>

theorem static_flag_ignored:
  assumes "isStatic car"
  shows "handleWallCollisions car r
           = ((fst (handleWallCollisions (car\<lparr>isStatic := False\<rparr>) r))\<lparr>isStatic := True\<rparr>,
              snd (handleWallCollisions (car\<lparr>isStatic := False\<rparr>) r))
       \<and> fst (snd (handleCarCollision p car lastTime popups r1 r2 now))
           = (fst (snd (handleCarCollision p (car\<lparr>isStatic := False\<rparr>) lastTime popups r1 r2 now)))
               \<lparr>isStatic := True\<rparr>
       \<and> fst (handleCarCollision car t lastTime popups r1 r2 now)
           = (fst (handleCarCollision (car\<lparr>isStatic := False\<rparr>) t lastTime popups r1 r2 now))
               \<lparr>isStatic := True\<rparr>
       \<and> (cornersInside car \<longrightarrow> handleWallCollisions car r = (car, False))
       \<and> (\<not> checkCarCollision p car \<longrightarrow>
            fst (snd (handleCarCollision p car lastTime popups r1 r2 now)) = car)
       \<and> (\<not> checkCarCollision car t \<longrightarrow>
            fst (handleCarCollision car t lastTime popups r1 r2 now) = car)"
proof -
  have car: "car = (car\<lparr>isStatic := False\<rparr>)\<lparr>isStatic := True\<rparr>"
    using assms by simp
  have w: "handleWallCollisions car r
           = ((fst (handleWallCollisions (car\<lparr>isStatic := False\<rparr>) r))\<lparr>isStatic := True\<rparr>,
              snd (handleWallCollisions (car\<lparr>isStatic := False\<rparr>) r))"
    by (subst car, subst handleWallCollisions_static) simp
  have pp: "p = p\<lparr>isStatic := isStatic p\<rparr>" and tt: "t = t\<lparr>isStatic := isStatic t\<rparr>"
    by simp_all
  have t: "fst (snd (handleCarCollision p car lastTime popups r1 r2 now))
           = (fst (snd (handleCarCollision p (car\<lparr>isStatic := False\<rparr>) lastTime popups r1 r2 now)))
               \<lparr>isStatic := True\<rparr>"
    by (subst car, subst pp, subst handleCarCollision_static) (simp add: Let_def)
  have pl: "fst (handleCarCollision car t lastTime popups r1 r2 now)
           = (fst (handleCarCollision (car\<lparr>isStatic := False\<rparr>) t lastTime popups r1 r2 now))
               \<lparr>isStatic := True\<rparr>"
    by (subst car, subst tt, subst handleCarCollision_static) (simp add: Let_def)
  have i: "cornersInside car \<longrightarrow> handleWallCollisions car r = (car, False)"
    by (simp add: handleWallCollisions_inside)
  have a1: "\<not> checkCarCollision p car \<longrightarrow>
            fst (snd (handleCarCollision p car lastTime popups r1 r2 now)) = car"
    by (simp add: handleCarCollision_apart)
  have a2: "\<not> checkCarCollision car t \<longrightarrow>
            fst (handleCarCollision car t lastTime popups r1 r2 now) = car"
    by (simp add: handleCarCollision_apart)
  show ?thesis
    using w t pl i a1 a2 by blast
qed

theorem static_flag_ignored_witness:
  "isStatic carB
   \<and> fst (snd (handleCarCollision carA carB 0 [] 0 0 1000))
       = (fst (snd (handleCarCollision carA (carB\<lparr>isStatic := False\<rparr>) 0 [] 0 0 1000)))
           \<lparr>isStatic := True\<rparr>
   \<and> handleWallCollisions carB 0
       = ((fst (handleWallCollisions (carB\<lparr>isStatic := False\<rparr>) 0))\<lparr>isStatic := True\<rparr>,
          snd (handleWallCollisions (carB\<lparr>isStatic := False\<rparr>) 0))"
proof -
  have s: "isStatic carB" by (simp add: carB_def createCar_def)
  show ?thesis
    using static_flag_ignored[OF s, of 0 carA 0 "[]" 0 0 1000 carA] s by blast
qed

section \<open>Reconciliation\<close>

lemma interpolateCar_fields:
  "pos_x (current (interpolateCar ic))
     = pos_x (current ic) + (3 / 10) * (pos_x (target ic) - pos_x (current ic))"
  "pos_y (current (interpolateCar ic))
     = pos_y (current ic) + (3 / 10) * (pos_y (target ic) - pos_y (current ic))"
  "vx (current (interpolateCar ic)) = vx (current ic) + (3 / 10) * (vx (target ic) - vx (current ic))"
  "vy (current (interpolateCar ic)) = vy (current ic) + (3 / 10) * (vy (target ic) - vy (current ic))"
  "angularVel (current (interpolateCar ic))
     = angularVel (current ic) + (3 / 10) * (angularVel (target ic) - angularVel (current ic))"
  "angle (current (interpolateCar ic))
     = angle (current ic) + (3 / 10) * wrapAngle (angle (target ic) - angle (current ic))"
  "health (current (interpolateCar ic)) = health (target ic)"
  "target (interpolateCar ic) = target ic"
  "healthShared (interpolateCar ic) = False"
  by (simp_all add: interpolateCar_def Let_def INTERPOLATION_FACTOR_def)























lemma interpolateOtherPlayers_health:
  "list_all (\<lambda>e. health (current (snd e)) = health (target (snd e)))
     (interpolateOtherPlayers players)"
  unfolding interpolateOtherPlayers_def
  by (induction players) (auto simp: interpolateCar_fields)

lemma interpolateOtherPlayers_unshared:
  "list_all (\<lambda>e. \<not> healthShared (snd e)) (interpolateOtherPlayers players)"
  unfolding interpolateOtherPlayers_def
  by (induction players) (auto simp: interpolateCar_fields)

lemma interpolateOtherPlayers_targets:
  "map (\<lambda>e. (fst e, target (snd e))) (interpolateOtherPlayers players)
     = map (\<lambda>e. (fst e, target (snd e))) players"
  unfolding interpolateOtherPlayers_def
  by (induction players) (auto simp: interpolateCar_fields)

lemma interpolateOtherPlayers_current_health:
  "map (\<lambda>e. (fst e, health (current (snd e)))) (interpolateOtherPlayers players)
     = map (\<lambda>e. (fst e, health (target (snd e)))) players"
  unfolding interpolateOtherPlayers_def
  by (induction players) (auto simp: interpolateCar_fields)

lemma collideStep_player:
  "fst (collideStep env (pc, vis, tm, pp) (k, ic))
     = fst (handleCarCollision pc (current ic)
              (case map_of tm k of Some t \<Rightarrow> t | None \<Rightarrow> 0) pp
              (collisionRandom1 env k) (collisionRandom2 env k) (clock env k))"
  by (simp add: Let_def)

lemma collideStep_visited:
  "fst (snd (collideStep env (pc, vis, tm, pp) (k, ic)))
     = vis @ [(k, ic\<lparr>current := fst (snd (handleCarCollision pc (current ic)
                  (case map_of tm k of Some t \<Rightarrow> t | None \<Rightarrow> 0) pp
                  (collisionRandom1 env k) (collisionRandom2 env k) (clock env k))),
                target := (if healthShared ic
                  then (target ic)\<lparr>health := health (fst (snd (handleCarCollision pc (current ic)
                  (case map_of tm k of Some t \<Rightarrow> t | None \<Rightarrow> 0) pp
                  (collisionRandom1 env k) (collisionRandom2 env k) (clock env k))))\<rparr>
                  else target ic)\<rparr>)]"
  by (simp add: Let_def)

lemma collide_targets:
  "list_all (\<lambda>e. \<not> healthShared (snd e)) ps
   \<Longrightarrow> map (\<lambda>e. (fst e, target (snd e))) (fst (snd (foldl (collideStep env) st ps)))
       = map (\<lambda>e. (fst e, target (snd e))) (fst (snd st)) @ map (\<lambda>e. (fst e, target (snd e))) ps"
proof (induction ps arbitrary: st)
  case Nil
  then show ?case by simp
next
  case (Cons e ps)
  obtain pc vis tm pp where st: "st = (pc, vis, tm, pp)" by (cases st) auto
  obtain k ic where e: "e = (k, ic)" by (cases e) auto
  have u: "\<not> healthShared ic" using Cons.prems e by simp
  have "map (\<lambda>e. (fst e, target (snd e))) (fst (snd (collideStep env st e)))
          = map (\<lambda>e. (fst e, target (snd e))) (fst (snd st)) @ [(k, target ic)]"
    unfolding st e collideStep_visited using u by simp
  moreover have "list_all (\<lambda>e. \<not> healthShared (snd e)) ps" using Cons.prems by simp
  ultimately show ?case
    using Cons.IH[of "collideStep env st e"] e by simp
qed

lemma updatePhysics_others:
  "otherPlayersRef (updatePhysics c input env)
     = fst (snd (foldl (collideStep env)
         (fst (updatePlayerCarPhysics (playerCarRef c) input), [], lastCollisionTimeRef c,
          damagePopupsRef c)
         (interpolateOtherPlayers (otherPlayersRef c))))"
  by (simp add: updatePhysics_def collideAll_def Let_def)

text \<open>
  C10. After every interpolation step the health of every tracked car's rendered copy
  equals the health of its target, whatever it was before; the step leaves the targets
  alone. A tick (which interpolates first and collides afterwards) never changes a
  target, so whatever the collisions of a tick write into the rendered copies' health
  is replaced by the target's health at the next interpolation step.
\<close>

theorem health_copied_verbatim:
  "list_all (\<lambda>e. health (current (snd e)) = health (target (snd e)))
     (interpolateOtherPlayers players)
   \<and> map (\<lambda>e. (fst e, target (snd e))) (interpolateOtherPlayers players)
       = map (\<lambda>e. (fst e, target (snd e))) players
   \<and> map (\<lambda>e. (fst e, target (snd e))) (otherPlayersRef (updatePhysics c input env))
       = map (\<lambda>e. (fst e, target (snd e))) (otherPlayersRef c)
   \<and> map (\<lambda>e. (fst e, health (current (snd e))))
         (interpolateOtherPlayers (otherPlayersRef (updatePhysics c input env)))
       = map (\<lambda>e. (fst e, health (target (snd e)))) (otherPlayersRef c)"
proof -
  have t: "map (\<lambda>e. (fst e, target (snd e))) (otherPlayersRef (updatePhysics c input env))
       = map (\<lambda>e. (fst e, target (snd e))) (otherPlayersRef c)"
    unfolding updatePhysics_others
    using collide_targets[OF interpolateOtherPlayers_unshared, of env
        "(fst (updatePlayerCarPhysics (playerCarRef c) input), [], lastCollisionTimeRef c,
          damagePopupsRef c)" "otherPlayersRef c"]
    by (simp add: interpolateOtherPlayers_targets)
  have "map (\<lambda>e. (fst e, health (snd e)))
          (map (\<lambda>e. (fst e, target (snd e))) (otherPlayersRef (updatePhysics c input env)))
        = map (\<lambda>e. (fst e, health (snd e)))
          (map (\<lambda>e. (fst e, target (snd e))) (otherPlayersRef c))"
    by (simp only: t)
  then have h: "map (\<lambda>e. (fst e, health (target (snd e)))) (otherPlayersRef (updatePhysics c input env))
       = map (\<lambda>e. (fst e, health (target (snd e)))) (otherPlayersRef c)"
    by (simp add: o_def)
  show ?thesis
    using t h interpolateOtherPlayers_health interpolateOtherPlayers_targets
    by (simp add: interpolateOtherPlayers_current_health)
qed

theorem health_copied_verbatim_witness:
  "front (health (current remoteB)) = 40
   \<and> map (\<lambda>e. (fst e, health (current (snd e)))) (interpolateOtherPlayers [(''a'', remoteB)])
       = [(''a'', fullHealth)]"
proof -
  have "list_all (\<lambda>e. health (current (snd e)) = health (target (snd e)))
     (interpolateOtherPlayers [(''a'', remoteB)])"
    using health_copied_verbatim[of "[(''a'', remoteB)]"] by blast
  moreover have "map fst (interpolateOtherPlayers [(''a'', remoteB)]) = [''a'']"
    by (simp add: interpolateOtherPlayers_def)
  moreover have "health (target (interpolateCar remoteB)) = fullHealth"
    by (simp add: interpolateCar_fields remoteB_def createCar_def fullHealth_def)
  ultimately show ?thesis
    by (simp add: interpolateOtherPlayers_def remoteB_def)
qed

section \<open>Roster updates\<close>

lemma playersStep_other:
  "k \<noteq> ps_id p \<Longrightarrow> map_of (playersStep self cur acc p) k = map_of acc k"
  by (simp add: playersStep_def Let_def update_conv' split: option.splits)

lemma playersStep_self:
  "Some (ps_id p) = self \<Longrightarrow> playersStep self cur acc p = acc"
  by (simp add: playersStep_def)

lemma playersStep_hit:
  "Some (ps_id p) \<noteq> self \<Longrightarrow>
   map_of (playersStep self cur acc p) (ps_id p)
     = Some (case map_of cur (ps_id p) of
               Some existing \<Rightarrow> existing\<lparr>target := playerStateToCar p, healthShared := False\<rparr>
             | None \<Rightarrow> newInterpolatedCar (playerStateToCar p))"
  by (simp add: playersStep_def Let_def update_conv' split: option.splits)

lemma players_fold_absent:
  "k \<notin> ps_id ` set ps \<Longrightarrow> map_of (foldl (playersStep self cur) acc ps) k = map_of acc k"
  by (induction ps arbitrary: acc) (simp_all add: playersStep_other)

lemma players_fold_self:
  "self = Some k \<Longrightarrow> map_of (foldl (playersStep self cur) acc ps) k = map_of acc k"
proof (induction ps arbitrary: acc)
  case Nil
  then show ?case by simp
next
  case (Cons p ps)
  show ?case
  proof (cases "ps_id p = k")
    case True
    then show ?thesis using Cons by (simp add: playersStep_self)
  next
    case False
    then show ?thesis using Cons by (simp add: playersStep_other)
  qed
qed

lemma players_fold_present:
  "k \<in> ps_id ` set ps \<Longrightarrow> self \<noteq> Some k \<Longrightarrow>
   \<exists>p \<in> set ps. ps_id p = k
      \<and> map_of (foldl (playersStep self cur) acc ps) k
          = Some (case map_of cur k of
                    Some existing \<Rightarrow> existing\<lparr>target := playerStateToCar p, healthShared := False\<rparr>
                  | None \<Rightarrow> newInterpolatedCar (playerStateToCar p))"
proof (induction ps rule: rev_induct)
  case Nil
  then show ?case by simp
next
  case (snoc p ps)
  show ?case
  proof (cases "ps_id p = k")
    case True
    then have "Some (ps_id p) \<noteq> self" using snoc.prems by auto
    then show ?thesis using True playersStep_hit[of p self cur] by auto
  next
    case False
    then have "k \<in> ps_id ` set ps" using snoc.prems by auto
    then obtain q where "q \<in> set ps" "ps_id q = k"
      "map_of (foldl (playersStep self cur) acc ps) k
          = Some (case map_of cur k of
                    Some existing \<Rightarrow> existing\<lparr>target := playerStateToCar q, healthShared := False\<rparr>
                  | None \<Rightarrow> newInterpolatedCar (playerStateToCar q))"
      using snoc.IH snoc.prems(2) by blast
    then show ?thesis using False by (auto simp: playersStep_other)
  qed
qed

text \<open>
  C4 as the specification states it (a tracked id missing from a \<open>players\<close> update is
  left untouched) fails: the handler builds a new map from the update alone and
  installs it, so a tracked car that the update omits is gone.
\<close>

theorem roster_omission_counterexample:
  "map_of (otherPlayersRef clientA) ''a'' = Some remoteA
   \<and> map_of (otherPlayersRef (onmessage clientA (Players [snapshotB]))) ''a'' = None
   \<and> map fst (otherPlayersRef (onmessage clientA (Players [snapshotB]))) = [''b'']"
  by (simp add: clientA_def snapshotB_def snapshotA_def playersStep_def Let_def)

text \<open>
  C4, amended. A \<open>players\<close> update replaces the membership of the reconciliation map
  by the ids of the update (the client's own id apart): a tracked id that is missing
  from the update is dropped; an id of the update that was tracked keeps its rendered
  car and takes a snapshot of the update as its target; an id that was not tracked
  starts at its target. A \<open>player-left\<close> event removes the id it names and leaves every
  other record as it was.
\<close>

theorem roster_replaces_membership:
  "(k \<notin> ps_id ` set ps \<or> playerIdRef c = Some k \<longrightarrow>
      map_of (otherPlayersRef (onmessage c (Players ps))) k = None)
   \<and> (k \<in> ps_id ` set ps \<and> playerIdRef c \<noteq> Some k \<longrightarrow>
        (\<exists>p \<in> set ps. ps_id p = k
           \<and> map_of (otherPlayersRef (onmessage c (Players ps))) k
               = Some (case map_of (otherPlayersRef c) k of
                         Some existing \<Rightarrow>
                           existing\<lparr>target := playerStateToCar p, healthShared := False\<rparr>
                       | None \<Rightarrow> newInterpolatedCar (playerStateToCar p))))
   \<and> map_of (otherPlayersRef (onmessage c (PlayerLeft k'))) k
       = (if k = k' then None else map_of (otherPlayersRef c) k)"
proof (intro conjI impI)
  assume "k \<notin> ps_id ` set ps \<or> playerIdRef c = Some k"
  then show "map_of (otherPlayersRef (onmessage c (Players ps))) k = None"
    using players_fold_absent[of k ps "playerIdRef c" "otherPlayersRef c" "[]"]
      players_fold_self[of "playerIdRef c" k "otherPlayersRef c" "[]" ps]
    by (auto simp: Let_def)
next
  assume "k \<in> ps_id ` set ps \<and> playerIdRef c \<noteq> Some k"
  then show "\<exists>p \<in> set ps. ps_id p = k
           \<and> map_of (otherPlayersRef (onmessage c (Players ps))) k
               = Some (case map_of (otherPlayersRef c) k of
                         Some existing \<Rightarrow>
                           existing\<lparr>target := playerStateToCar p, healthShared := False\<rparr>
                       | None \<Rightarrow> newInterpolatedCar (playerStateToCar p))"
    using players_fold_present[of k ps "playerIdRef c" "otherPlayersRef c" "[]"]
    by (simp add: Let_def)
next
  show "map_of (otherPlayersRef (onmessage c (PlayerLeft k'))) k
       = (if k = k' then None else map_of (otherPlayersRef c) k)"
    by (simp add: Let_def delete_conv')
qed

theorem roster_replaces_membership_witness:
  "''a'' \<notin> ps_id ` set [snapshotB]
   \<and> map_of (otherPlayersRef (onmessage clientA (Players [snapshotB]))) ''a'' = None
   \<and> map_of (otherPlayersRef (onmessage clientA (PlayerLeft ''b''))) ''a'' = Some remoteA"
proof -
  have a: "''a'' \<notin> ps_id ` set [snapshotB]"
    by (simp add: snapshotB_def)
  have o: "map_of (otherPlayersRef clientA) ''a'' = Some remoteA"
    by (simp add: clientA_def)
  show ?thesis
    using roster_replaces_membership[of "''a''" "[snapshotB]" clientA "''b''"] a o
    by simp
qed

section \<open>Wall containment\<close>

lemma hit_fields:
  "pos_x (hitLeftWall c k) = pos_x c + (WALL_THICKNESS - k)"
  "pos_y (hitLeftWall c k) = pos_y c"
  "pos_x (hitRightWall c k) = pos_x c - (k - (WORLD_WIDTH - WALL_THICKNESS))"
  "pos_y (hitRightWall c k) = pos_y c"
  "pos_x (hitTopWall c k) = pos_x c"
  "pos_y (hitTopWall c k) = pos_y c + (WALL_THICKNESS - k)"
  "pos_x (hitBottomWall c k) = pos_x c"
  "pos_y (hitBottomWall c k) = pos_y c - (k - (WORLD_HEIGHT - WALL_THICKNESS))"
  "angle (hitLeftWall c k) = angle c" "angle (hitRightWall c k) = angle c"
  "angle (hitTopWall c k) = angle c" "angle (hitBottomWall c k) = angle c"
  "width (hitLeftWall c k) = width c" "width (hitRightWall c k) = width c"
  "width (hitTopWall c k) = width c" "width (hitBottomWall c k) = width c"
  "height (hitLeftWall c k) = height c" "height (hitRightWall c k) = height c"
  "height (hitTopWall c k) = height c" "height (hitBottomWall c k) = height c"
  "health (hitLeftWall c k) = health c" "health (hitRightWall c k) = health c"
  "health (hitTopWall c k) = health c" "health (hitBottomWall c k) = health c"
  by (simp_all add: hitLeftWall_def hitRightWall_def hitTopWall_def hitBottomWall_def Let_def)

lemma wallStep_fields:
  "pos_x (fst (wallStep s k)) = pos_x (fst s) + pushIn WORLD_WIDTH (fst k)"
  "pos_y (fst (wallStep s k)) = pos_y (fst s) + pushIn WORLD_HEIGHT (snd k)"
  "angle (fst (wallStep s k)) = angle (fst s)"
  "width (fst (wallStep s k)) = width (fst s)"
  "height (fst (wallStep s k)) = height (fst s)"
  "health (fst (wallStep s k)) = health (fst s)"
  by (simp_all add: wallStep_def leftWall_def rightWall_def topWall_def bottomWall_def
      hit_fields pushIn_def)

lemma foldl_wallStep_fields:
  "pos_x (fst (foldl wallStep s ks)) = pos_x (fst s) + (\<Sum>k\<leftarrow>ks. pushIn WORLD_WIDTH (fst k))"
  "pos_y (fst (foldl wallStep s ks)) = pos_y (fst s) + (\<Sum>k\<leftarrow>ks. pushIn WORLD_HEIGHT (snd k))"
  "angle (fst (foldl wallStep s ks)) = angle (fst s)"
  "width (fst (foldl wallStep s ks)) = width (fst s)"
  "height (fst (foldl wallStep s ks)) = height (fst s)"
  "health (fst (foldl wallStep s ks)) = health (fst s)"
  by (induction ks arbitrary: s; simp add: wallStep_fields)+

lemma handleWallCollisions_fields:
  "pos_x (fst (handleWallCollisions car r))
     = pos_x car + (\<Sum>k\<leftarrow>getCarCorners car. pushIn WORLD_WIDTH (fst k))"
  "pos_y (fst (handleWallCollisions car r))
     = pos_y car + (\<Sum>k\<leftarrow>getCarCorners car. pushIn WORLD_HEIGHT (snd k))"
  "angle (fst (handleWallCollisions car r)) = angle car"
  "width (fst (handleWallCollisions car r)) = width car"
  "height (fst (handleWallCollisions car r)) = height car"
  "health (fst (handleWallCollisions car r)) = health car"
  by (simp_all add: handleWallCollisions_def Let_def foldl_wallStep_fields)







lemma physics_steps_keep:
  "pos_x (steer c i) = pos_x c" "pos_y (steer c i) = pos_y c"
  "width (steer c i) = width c" "height (steer c i) = height c"
  "health (steer c i) = health c"
  "pos_x (accelerate c i) = pos_x c" "pos_y (accelerate c i) = pos_y c"
  "width (accelerate c i) = width c" "height (accelerate c i) = height c"
  "health (accelerate c i) = health c"
  "pos_x (applyFriction c) = pos_x c" "pos_y (applyFriction c) = pos_y c"
  "width (applyFriction c) = width c" "height (applyFriction c) = height c"
  "health (applyFriction c) = health c"
  "width (fst (clampAndMove c)) = width c" "height (fst (clampAndMove c)) = height c"
  "health (fst (clampAndMove c)) = health c"
  by (simp_all add: steer_def accelerate_def applyFriction_def clampAndMove_def Let_def)

lemma clamp_component:
  fixes u v :: real
  shows "\<bar>if sqrt (u * u + v * v) > MAX_SPEED then (u / sqrt (u * u + v * v)) * MAX_SPEED else u\<bar>
           \<le> 8"
proof -
  define n where "n = sqrt (u * u + v * v)"
  have un: "\<bar>u\<bar> \<le> n"
    unfolding n_def using real_sqrt_ge_abs1[of u v] by (simp add: power2_eq_square)
  have "\<bar>if n > MAX_SPEED then (u / n) * MAX_SPEED else u\<bar> \<le> 8"
  proof (cases "n > MAX_SPEED")
    case True
    then have pos: "0 < n" by (simp add: MAX_SPEED_def)
    have "\<bar>(u / n) * 8\<bar> = \<bar>u / n\<bar> * \<bar>8\<bar>" by (rule abs_mult)
    also have "\<dots> = (\<bar>u\<bar> / \<bar>n\<bar>) * 8" by (simp only: abs_divide abs_numeral)
    also have "\<dots> = (\<bar>u\<bar> / n) * 8" using pos by simp
    finally have e: "\<bar>(u / n) * 8\<bar> = (\<bar>u\<bar> / n) * 8" .
    have "\<bar>u\<bar> / n \<le> 1" using un pos by simp
    then have "(\<bar>u\<bar> / n) * 8 \<le> 1 * 8" by (rule mult_right_mono) simp
    then have "(\<bar>u\<bar> / n) * 8 \<le> 8" by (simp only: mult_1)
    then have "\<bar>(u / n) * MAX_SPEED\<bar> \<le> 8" unfolding MAX_SPEED_def e .
    then show ?thesis using True by (simp only: if_True)
  next
    case False
    then have "\<bar>u\<bar> \<le> 8" using un by (simp add: MAX_SPEED_def)
    then show ?thesis using False by (simp only: if_False)
  qed
  then show ?thesis unfolding n_def .
qed

lemma clampAndMove_move:
  "\<bar>pos_x (fst (clampAndMove c)) - pos_x c\<bar> \<le> 8"
  "\<bar>pos_y (fst (clampAndMove c)) - pos_y c\<bar> \<le> 8"
proof -
  have x: "pos_x (fst (clampAndMove c)) - pos_x c
      = (if sqrt (vx c * vx c + vy c * vy c) > MAX_SPEED
         then (vx c / sqrt (vx c * vx c + vy c * vy c)) * MAX_SPEED else vx c)"
    by (simp add: clampAndMove_def Let_def)
  have y: "pos_y (fst (clampAndMove c)) - pos_y c
      = (if sqrt (vy c * vy c + vx c * vx c) > MAX_SPEED
         then (vy c / sqrt (vy c * vy c + vx c * vx c)) * MAX_SPEED else vy c)"
    by (simp add: clampAndMove_def Let_def add.commute)
  show "\<bar>pos_x (fst (clampAndMove c)) - pos_x c\<bar> \<le> 8"
    unfolding x by (rule clamp_component)
  show "\<bar>pos_y (fst (clampAndMove c)) - pos_y c\<bar> \<le> 8"
    unfolding y by (rule clamp_component)
qed

lemma physics_move:
  "\<bar>pos_x (fst (updatePlayerCarPhysics car input)) - pos_x car\<bar> \<le> 8"
  "\<bar>pos_y (fst (updatePlayerCarPhysics car input)) - pos_y car\<bar> \<le> 8"
  "width (fst (updatePlayerCarPhysics car input)) = width car"
  "height (fst (updatePlayerCarPhysics car input)) = height car"
  "health (fst (updatePlayerCarPhysics car input)) = health car"
  using clampAndMove_move[of "applyFriction (accelerate (steer car input) input)"]
  by (simp_all add: updatePlayerCarPhysics_def physics_steps_keep)


































section \<open>Health bounds\<close>

lemma healthy_damage:
  "healthyZones h \<Longrightarrow> 0 \<le> d \<Longrightarrow> healthyZones (setZone h z (max 0 (getZone h z - d)))"
  by (cases z) (auto simp: healthyZones_def)

lemma round_nonneg: "0 \<le> x \<Longrightarrow> 0 \<le> (of_int (round x) :: real)" for x :: real
proof -
  assume "0 \<le> x"
  then have "0 \<le> x + 1 / 2" by simp
  then have "0 \<le> \<lfloor>x + 1 / 2\<rfloor>" by simp
  then show ?thesis by (simp add: round_def)
qed

lemma damageCars_healthy:
  assumes "healthyZones (health p)" "healthyZones (health t)" "2 < s"
  shows "healthyZones (health (fst (damageCars p t s a popups)))"
        "healthyZones (health (fst (snd (damageCars p t s a popups))))"
proof -
  have d: "0 \<le> (of_int (round ((s - 2) * 3)) :: real)"
    using assms(3) by (intro round_nonneg) simp
  then have d': "0 \<le> (of_int (round ((s - 2) * 3)) :: real) * (15 / 100)" by simp
  show "healthyZones (health (fst (damageCars p t s a popups)))"
    unfolding damageCars_result using assms(1) d' by (rule healthy_damage)
  show "healthyZones (health (fst (snd (damageCars p t s a popups))))"
    unfolding damageCars_result using assms(2) d by (rule healthy_damage)
qed

lemma resolveCollision_healthy:
  assumes "healthyZones (health p)" "healthyZones (health t)"
  shows "healthyZones (health (fst (resolveCollision p t dx dy d m lastTime popups r1 r2 now)))
       \<and> healthyZones (health (fst (snd (resolveCollision p t dx dy d m lastTime popups r1 r2 now))))"
proof -
  have k: "health (fst (kickCars (fst (bounceCars (fst (separateCars p t nx ny f))
               (snd (separateCars p t nx ny f)) nx ny ic))
             (snd (bounceCars (fst (separateCars p t nx ny f))
               (snd (separateCars p t nx ny f)) nx ny ic)) r1 r2)) = health p"
      "health (snd (kickCars (fst (bounceCars (fst (separateCars p t nx ny f))
               (snd (separateCars p t nx ny f)) nx ny ic))
             (snd (bounceCars (fst (separateCars p t nx ny f))
               (snd (separateCars p t nx ny f)) nx ny ic)) r1 r2)) = health t"
    for nx ny f ic
    by (simp_all add: step_keeps)
  show ?thesis
    unfolding resolveCollision_def Let_def
    using assms damageCars_healthy
    by (simp add: k MIN_IMPACT_FOR_DAMAGE_def)
qed

lemma handleCarCollision_healthy:
  assumes "healthyZones (health p)" "healthyZones (health t)"
  shows "healthyZones (health (fst (handleCarCollision p t lastTime popups r1 r2 now)))
       \<and> healthyZones (health (fst (snd (handleCarCollision p t lastTime popups r1 r2 now))))"
proof -
  define d where "d = sqrt ((pos_x t - pos_x p) * (pos_x t - pos_x p)
                          + (pos_y t - pos_y p) * (pos_y t - pos_y p))"
  consider (apart) "\<not> checkCarCollision p t" | (same) "d = 0"
    | (hit) "checkCarCollision p t" "d \<noteq> 0"
    by blast
  then show ?thesis
  proof cases
    case apart
    then show ?thesis using assms by (simp add: handleCarCollision_apart)
  next
    case same
    have "handleCarCollision p t lastTime popups r1 r2 now = (p, t, popups, lastTime)"
      using same unfolding d_def by (rule handleCarCollision_coincident)
    then show ?thesis using assms by simp
  next
    case hit
    show ?thesis
      unfolding handleCarCollision_hit[OF hit(1) hit(2)[unfolded d_def]]
      using assms by (rule resolveCollision_healthy)
  qed
qed


lemma collideStep_healthy:
  assumes "healthyZones (health (fst st))" "list_all healthyRecord (fst (snd st))"
      "healthyRecord e"
  shows "healthyZones (health (fst (collideStep env st e)))
       \<and> list_all healthyRecord (fst (snd (collideStep env st e)))"
proof -
  obtain pc vis tm pp where st: "st = (pc, vis, tm, pp)" by (cases st) auto
  obtain k ic where e: "e = (k, ic)" by (cases e) auto
  have c: "healthyZones (health (current ic))" and t: "healthyZones (health (target ic))"
    using assms(3) unfolding e healthyRecord_def by simp_all
  have p: "healthyZones (health pc)" using assms(1) unfolding st by simp
  note h = handleCarCollision_healthy[OF p c, of "case map_of tm k of Some t \<Rightarrow> t | None \<Rightarrow> 0"
      pp "collisionRandom1 env k" "collisionRandom2 env k" "clock env k"]
  show ?thesis
    unfolding st e collideStep_player collideStep_visited
    using h t assms(2) unfolding st
    by (simp add: healthyRecord_def)
qed

lemma foldl_collideStep_healthy:
  "healthyZones (health (fst st)) \<Longrightarrow> list_all healthyRecord (fst (snd st))
   \<Longrightarrow> list_all healthyRecord ps
   \<Longrightarrow> healthyZones (health (fst (foldl (collideStep env) st ps)))
       \<and> list_all healthyRecord (fst (snd (foldl (collideStep env) st ps)))"
proof (induction ps arbitrary: st)
  case Nil
  then show ?case by simp
next
  case (Cons e ps)
  have "healthyZones (health (fst (collideStep env st e)))
       \<and> list_all healthyRecord (fst (snd (collideStep env st e)))"
    using Cons.prems by (intro collideStep_healthy) simp_all
  then show ?case using Cons.IH[of "collideStep env st e"] Cons.prems(3) by simp
qed

lemma collideAll_healthy: "healthyClient c \<Longrightarrow> healthyClient (collideAll env c)"
  using foldl_collideStep_healthy[of "(playerCarRef c, [], lastCollisionTimeRef c,
      damagePopupsRef c)" "otherPlayersRef c" env]
  by (simp add: healthyClient_def collideAll_def Let_def)

lemma interpolate_healthy:
  "list_all healthyRecord players \<Longrightarrow> list_all healthyRecord (interpolateOtherPlayers players)"
  unfolding interpolateOtherPlayers_def
  by (induction players) (auto simp: healthyRecord_def interpolateCar_fields)

lemma update_healthy:
  "list_all healthyRecord al \<Longrightarrow> healthyRecord (k, v)
   \<Longrightarrow> list_all healthyRecord (AList.update k v al)"
  by (induction al) (auto simp: healthyRecord_def)

lemma delete_healthy:
  "list_all healthyRecord al \<Longrightarrow> list_all healthyRecord (AList.delete k al)"
  by (induction al) (auto simp: AList.delete_eq)

lemma lookup_healthy:
  "list_all healthyRecord al \<Longrightarrow> map_of al k = Some v \<Longrightarrow> healthyRecord (k, v)"
  using map_of_SomeD[of al k v] by (auto simp: list_all_iff)

lemma fresh_healthy:
  "healthyZones (ps_health p) \<Longrightarrow> healthyRecord (k, newInterpolatedCar (playerStateToCar p))"
  by (simp add: healthyRecord_def newInterpolatedCar_def playerStateToCar_def)

lemma welcomeStep_healthy:
  "list_all healthyRecord acc \<Longrightarrow> healthyZones (ps_health p)
   \<Longrightarrow> list_all healthyRecord (welcomeStep ident acc p)"
  by (simp add: welcomeStep_def update_healthy fresh_healthy)

lemma playersStep_healthy:
  assumes "list_all healthyRecord cur" "list_all healthyRecord acc" "healthyZones (ps_health p)"
  shows "list_all healthyRecord (playersStep self cur acc p)"
proof (cases "map_of cur (ps_id p)")
  case None
  then show ?thesis
    using assms by (simp add: playersStep_def Let_def update_healthy fresh_healthy)
next
  case (Some existing)
  have "healthyRecord (ps_id p, existing)" using lookup_healthy[OF assms(1) Some] .
  then have "healthyRecord (ps_id p, existing\<lparr>target := playerStateToCar p, healthShared := False\<rparr>)"
    using assms(3) by (simp add: healthyRecord_def playerStateToCar_def)
  then show ?thesis
    using assms Some by (simp add: playersStep_def Let_def update_healthy)
qed

lemma foldl_welcome_healthy:
  "list_all healthyRecord acc \<Longrightarrow> list_all (\<lambda>p. healthyZones (ps_health p)) ps
   \<Longrightarrow> list_all healthyRecord (foldl (welcomeStep ident) acc ps)"
  by (induction ps arbitrary: acc) (simp_all add: welcomeStep_healthy)

lemma foldl_players_healthy:
  "list_all healthyRecord cur \<Longrightarrow> list_all healthyRecord acc
   \<Longrightarrow> list_all (\<lambda>p. healthyZones (ps_health p)) ps
   \<Longrightarrow> list_all healthyRecord (foldl (playersStep self cur) acc ps)"
  by (induction ps arbitrary: acc) (simp_all add: playersStep_healthy)

lemma onmessage_healthy:
  "healthyClient c \<Longrightarrow> healthyMessage m \<Longrightarrow> healthyClient (onmessage c m)"
proof (cases m)
  case (Players ps)
  assume "healthyClient c" "healthyMessage m"
  then show ?thesis
    using Players foldl_players_healthy[of "otherPlayersRef c" "[]" ps "playerIdRef c"]
    by (simp add: healthyClient_def Let_def)
next
  case (PlayerJoined p)
  assume "healthyClient c" "healthyMessage m"
  then show ?thesis
    using PlayerJoined by (simp add: healthyClient_def Let_def update_healthy fresh_healthy)
next
  case (PlayerLeft ident)
  assume "healthyClient c" "healthyMessage m"
  then show ?thesis
    using PlayerLeft by (simp add: healthyClient_def Let_def delete_healthy)
next
  case (Welcome ident ps)
  assume "healthyClient c" "healthyMessage m"
  then show ?thesis
    using Welcome foldl_welcome_healthy[of "[]" ps ident]
    by (simp add: healthyClient_def Let_def)
next
  case Unhandled
  assume "healthyClient c" "healthyMessage m"
  then show ?thesis using Unhandled by simp
qed

lemma integrate_healthy:
  "healthyClient c
   \<Longrightarrow> healthyClient (c\<lparr>playerCarRef := fst (updatePlayerCarPhysics (playerCarRef c) input)\<rparr>)"
  by (simp add: healthyClient_def physics_move)

lemma walls_healthy:
  "healthyClient c
   \<Longrightarrow> healthyClient (c\<lparr>playerCarRef := fst (handleWallCollisions (playerCarRef c) r)\<rparr>)"
  by (simp add: healthyClient_def handleWallCollisions_fields)

lemma interpolate_client_healthy:
  "healthyClient c
   \<Longrightarrow> healthyClient (c\<lparr>otherPlayersRef := interpolateOtherPlayers (otherPlayersRef c)\<rparr>)"
  by (simp add: healthyClient_def interpolate_healthy)

lemma updatePhysics_healthy:
  assumes "healthyClient c"
  shows "healthyClient (updatePhysics c input env)"
proof -
  define c1 where "c1 = c\<lparr>otherPlayersRef := interpolateOtherPlayers (otherPlayersRef c)\<rparr>"
  define c2 where "c2 = c1\<lparr>playerCarRef := fst (updatePlayerCarPhysics (playerCarRef c1) input)\<rparr>"
  define c3 where "c3 = collideAll env c2"
  define c4 where "c4 = c3\<lparr>playerCarRef := fst (handleWallCollisions (playerCarRef c3) (wallRandom env))\<rparr>"
  have 1: "healthyClient c1" unfolding c1_def using assms by (rule interpolate_client_healthy)
  have 2: "healthyClient c2" unfolding c2_def using 1 by (rule integrate_healthy)
  have 3: "healthyClient c3" unfolding c3_def using 2 by (rule collideAll_healthy)
  have 4: "healthyClient c4" unfolding c4_def using 3 by (rule walls_healthy)
  have "playerCarRef (updatePhysics c input env) = playerCarRef c4"
       "otherPlayersRef (updatePhysics c input env) = otherPlayersRef c4"
    unfolding updatePhysics_def Let_def c4_def c3_def c2_def c1_def by simp_all
  then show ?thesis using 4 by (simp add: healthyClient_def)
qed

lemma applyOp_healthy: "healthyClient c \<Longrightarrow> healthyOp op \<Longrightarrow> healthyClient (applyOp c op)"
  by (cases op)
     (simp_all add: integrate_healthy collideAll_healthy walls_healthy
        interpolate_client_healthy onmessage_healthy updatePhysics_healthy)

lemma createCar_healthy: "healthyZones (health (createCar x y col ang s))"
  by (simp add: createCar_def healthyZones_def)

lemma initialClient_healthy: "healthyClient (initialClient x y ang col)"
  by (simp add: initialClient_def healthyClient_def createCar_def healthyZones_def)

lemma damageCars_healthy_player:
  assumes "healthyZones (health p)" "2 < s"
  shows "healthyZones (health (fst (damageCars p t s a popups)))"
proof -
  have d: "0 \<le> (of_int (round ((s - 2) * 3)) :: real)"
    using assms(2) by (intro round_nonneg) simp
  then have d': "0 \<le> (of_int (round ((s - 2) * 3)) :: real) * (15 / 100)" by simp
  show ?thesis
    unfolding damageCars_result using assms(1) d' by (rule healthy_damage)
qed

lemma resolveCollision_healthy_player:
  assumes "healthyZones (health p)"
  shows "healthyZones (health (fst (resolveCollision p t dx dy d m lastTime popups r1 r2 now)))"
proof -
  have k: "health (fst (kickCars (fst (bounceCars (fst (separateCars p t nx ny f))
               (snd (separateCars p t nx ny f)) nx ny ic))
             (snd (bounceCars (fst (separateCars p t nx ny f))
               (snd (separateCars p t nx ny f)) nx ny ic)) r1 r2)) = health p"
    for nx ny f ic
    by (simp add: step_keeps)
  show ?thesis
    unfolding resolveCollision_def Let_def
    using assms damageCars_healthy_player
    by (simp add: k MIN_IMPACT_FOR_DAMAGE_def)
qed

lemma handleCarCollision_healthy_player:
  assumes "healthyZones (health p)"
  shows "healthyZones (health (fst (handleCarCollision p t lastTime popups r1 r2 now)))"
proof -
  define d where "d = sqrt ((pos_x t - pos_x p) * (pos_x t - pos_x p)
                          + (pos_y t - pos_y p) * (pos_y t - pos_y p))"
  consider (apart) "\<not> checkCarCollision p t" | (same) "d = 0"
    | (hit) "checkCarCollision p t" "d \<noteq> 0"
    by blast
  then show ?thesis
  proof cases
    case apart
    then show ?thesis using assms by (simp add: handleCarCollision_apart)
  next
    case same
    have "handleCarCollision p t lastTime popups r1 r2 now = (p, t, popups, lastTime)"
      using same unfolding d_def by (rule handleCarCollision_coincident)
    then show ?thesis using assms by simp
  next
    case hit
    show ?thesis
      unfolding handleCarCollision_hit[OF hit(1) hit(2)[unfolded d_def]]
      using assms by (rule resolveCollision_healthy_player)
  qed
qed

lemma foldl_collideStep_player:
  "healthyZones (health (fst st))
   \<Longrightarrow> healthyZones (health (fst (foldl (collideStep env) st ps)))"
proof (induction ps arbitrary: st)
  case Nil
  then show ?case by simp
next
  case (Cons e ps)
  obtain pc vis tm pp where st: "st = (pc, vis, tm, pp)" by (cases st) auto
  obtain k ic where e: "e = (k, ic)" by (cases e) auto
  have "healthyZones (health (fst (collideStep env st e)))"
    unfolding st e collideStep_player
    using Cons.prems unfolding st by (intro handleCarCollision_healthy_player) simp
  then show ?case using Cons.IH[of "collideStep env st e"] by simp
qed

lemma collideAll_player:
  "healthyZones (health (playerCarRef c))
   \<Longrightarrow> healthyZones (health (playerCarRef (collideAll env c)))"
  using foldl_collideStep_player[of "(playerCarRef c, [], lastCollisionTimeRef c,
      damagePopupsRef c)" env "otherPlayersRef c"]
  by (simp add: collideAll_def Let_def)

lemma onmessage_player: "playerCarRef (onmessage c m) = playerCarRef c"
  by (cases m) (simp_all add: Let_def)

lemma updatePhysics_player:
  assumes "healthyZones (health (playerCarRef c))"
  shows "healthyZones (health (playerCarRef (updatePhysics c input env)))"
proof -
  define c1 where "c1 = c\<lparr>otherPlayersRef := interpolateOtherPlayers (otherPlayersRef c)\<rparr>"
  define c2 where "c2 = c1\<lparr>playerCarRef := fst (updatePlayerCarPhysics (playerCarRef c1) input)\<rparr>"
  define c3 where "c3 = collideAll env c2"
  have 2: "healthyZones (health (playerCarRef c2))"
    unfolding c2_def c1_def using assms by (simp add: physics_move)
  have 3: "healthyZones (health (playerCarRef c3))"
    unfolding c3_def using 2 by (rule collideAll_player)
  have "playerCarRef (updatePhysics c input env)
          = fst (handleWallCollisions (playerCarRef c3) (wallRandom env))"
    unfolding updatePhysics_def Let_def c3_def c2_def c1_def by simp
  then show ?thesis using 3 by (simp add: handleWallCollisions_fields)
qed

lemma applyOp_player:
  "healthyZones (health (playerCarRef c))
   \<Longrightarrow> healthyZones (health (playerCarRef (applyOp c op)))"
  by (cases op)
     (simp_all add: physics_move collideAll_player handleWallCollisions_fields
        onmessage_player updatePhysics_player)

lemma foldl_applyOp_player:
  "healthyZones (health (playerCarRef c))
   \<Longrightarrow> healthyZones (health (playerCarRef (foldl applyOp c ops)))"
  by (induction ops arbitrary: c) (simp_all add: applyOp_player)

lemma foldl_applyOp_healthy:
  "healthyClient c \<Longrightarrow> list_all healthyOp ops \<Longrightarrow> healthyClient (foldl applyOp c ops)"
  by (induction ops arbitrary: c) (simp_all add: applyOp_healthy)

lemma clientHit_overlap: "checkCarCollision carA (playerStateToCar snapshotD)"
  by (simp add: checkCarCollision_def carA_def snapshotD_def snapshotA_def playerStateToCar_def
      createCar_def CAR_WIDTH_def sqrt_100)

lemma clientHit_collision:
  "health (fst (handleCarCollision carA (playerStateToCar snapshotD) 0 [] (1 / 2) (1 / 2) 1000))
     = \<lparr>front = 9865 / 100, rear = 100, left = 100, right = 100\<rparr>"
  "health (fst (snd (handleCarCollision carA (playerStateToCar snapshotD) 0 []
       (1 / 2) (1 / 2) 1000)))
     = \<lparr>front = 100, rear = 0, left = 100, right = 100\<rparr>"
proof -
  let ?t = "playerStateToCar snapshotD"
  have nz: "sqrt ((pos_x ?t - pos_x carA) * (pos_x ?t - pos_x carA)
               + (pos_y ?t - pos_y carA) * (pos_y ?t - pos_y carA)) \<noteq> 0"
    by (simp add: carA_def snapshotD_def snapshotA_def playerStateToCar_def createCar_def
        sqrt_100)
  have e: "handleCarCollision carA ?t 0 [] (1 / 2) (1 / 2) 1000
     = resolveCollision carA ?t 10 0 10 (85 / 2) 0 [] (1 / 2) (1 / 2) 1000"
    unfolding handleCarCollision_hit[OF clientHit_overlap nz]
    by (simp add: carA_def snapshotD_def snapshotA_def playerStateToCar_def createCar_def
        sqrt_100 CAR_WIDTH_def)
  have c: "\<not> (1000::real) - 0 < 150" by simp
  have f: "\<bar>(vx carA - vx ?t) * (10 / 10) + (vy carA - vy ?t) * (0 / 10)\<bar> > 2"
    by (simp add: carA_def snapshotD_def snapshotA_def playerStateToCar_def createCar_def)
  have s: "\<bar>(vx carA - vx ?t) * (10 / 10) + (vy carA - vy ?t) * (0 / 10)\<bar> = 5"
    by (simp add: carA_def snapshotD_def snapshotA_def playerStateToCar_def createCar_def)
  have zt: "getHitZone ?t pi = Rear"
    using pi_gt_zero
    by (simp add: getHitZone_def playerStateToCar_def snapshotD_def snapshotA_def wrapAngle_id
        del: pi_gt_zero)
  have a: "atan2 0 (10::real) = 0" by (simp add: atan2_def)
  note r = resolve_damage[OF c f, of "85 / 2" "[]" "1 / 2" "1 / 2", unfolded s a Let_def]
  show "health (fst (handleCarCollision carA ?t 0 [] (1 / 2) (1 / 2) 1000))
     = \<lparr>front = 9865 / 100, rear = 100, left = 100, right = 100\<rparr>"
    unfolding e using r
    by (simp add: carA_zone) (simp add: carA_def createCar_def)
  show "health (fst (snd (handleCarCollision carA ?t 0 [] (1 / 2) (1 / 2) 1000)))
     = \<lparr>front = 100, rear = 0, left = 100, right = 100\<rparr>"
    unfolding e using r
    by (simp add: zt) (simp add: snapshotD_def snapshotA_def playerStateToCar_def)
qed

lemma clientHit_collide:
  "health (playerCarRef (applyOp clientHit (Collide hitEnv)))
     = \<lparr>front = 9865 / 100, rear = 100, left = 100, right = 100\<rparr>"
  "map (\<lambda>e. (health (current (snd e)), health (target (snd e))))
     (otherPlayersRef (applyOp clientHit (Collide hitEnv)))
     = [(\<lparr>front = 100, rear = 0, left = 100, right = 100\<rparr>,
         \<lparr>front = 100, rear = 0, left = 100, right = 100\<rparr>)]"
  using clientHit_collision
  by (simp_all add: clientHit_def collideAll_def initialClient_def newInterpolatedCar_def
      hitEnv_def quietEnv_def Let_def)

text \<open>
  C3 as the specification states it (every zone of every vehicle stays within
  \<open>[0, 100]\<close> under every sequence of operations) fails for a tracked remote vehicle:
  the receipt of a snapshot is one of the operations, \<open>playerStateToCar\<close> copies the
  snapshot's health as it comes, and the interpolation step copies it on into the
  rendered car. After a roster whose snapshot of \<open>a\<close> carries the zones 150 and -5,
  the rendered car of \<open>a\<close> has them.
\<close>

theorem snapshot_health_counterexample:
  "healthyClient clientA
   \<and> \<not> healthyClient (foldl applyOp clientA [Receive (Players [snapshotBad]), Interpolate])
   \<and> map (\<lambda>e. (fst e, health (current (snd e))))
        (otherPlayersRef (foldl applyOp clientA [Receive (Players [snapshotBad]), Interpolate]))
       = [(''a'', \<lparr>front = 150, rear = - 5, left = 100, right = 100\<rparr>)]"
  by (simp add: clientA_def initialClient_def healthyClient_def healthyRecord_def
      healthyZones_def remoteA_def createCar_def snapshotBad_def snapshotA_def
      playersStep_def playerStateToCar_def interpolateOtherPlayers_def
      interpolateCar_fields Let_def)

text \<open>
  C3, amended. A car is created with all four zones at 100. The zones of the local
  car stay within \<open>[0, 100]\<close> under every sequence of operations (physics
  integration, collisions with the remote cars, wall collision, interpolation, receipt
  of any message, whole ticks), whatever the messages carry: damage is subtracted
  under \<open>max 0\<close>, and nothing else writes the local car's health. The zones of a
  tracked remote car are what its snapshots carry: they stay within \<open>[0, 100]\<close> under
  every sequence of operations in which every snapshot received has its zones within
  \<open>[0, 100]\<close>.
\<close>

theorem health_zones_bounded:
  "healthyZones (health (createCar x y col ang s))
   \<and> healthyClient (initialClient x y ang col)
   \<and> health (playerStateToCar p) = ps_health p
   \<and> (healthyZones (health (playerCarRef c))
        \<longrightarrow> healthyZones (health (playerCarRef (foldl applyOp c ops))))
   \<and> healthyZones (health (playerCarRef (foldl applyOp (initialClient x y ang col) ops)))
   \<and> (list_all healthyOp ops \<longrightarrow> healthyClient (foldl applyOp (initialClient x y ang col) ops))
   \<and> (healthyClient c \<and> list_all healthyOp ops \<longrightarrow> healthyClient (foldl applyOp c ops))"
proof -
  have i: "healthyClient (initialClient x y ang col)" by (rule initialClient_healthy)
  then have ip: "healthyZones (health (playerCarRef (initialClient x y ang col)))"
    by (simp add: healthyClient_def)
  have p: "health (playerStateToCar p) = ps_health p" by (simp add: playerStateToCar_def)
  show ?thesis
    using foldl_applyOp_healthy foldl_applyOp_player[OF ip] foldl_applyOp_player[of c]
      i createCar_healthy p
    by blast
qed

theorem health_zones_bounded_witness:
  "healthyClient clientHit
   \<and> list_all healthyOp [Collide hitEnv, Interpolate, Receive (PlayerJoined snapshotA),
        Tick forwardInput hitEnv, Walls 0, Integrate forwardInput]
   \<and> healthyClient (foldl applyOp clientHit
        [Collide hitEnv, Interpolate, Receive (PlayerJoined snapshotA),
         Tick forwardInput hitEnv, Walls 0, Integrate forwardInput])
   \<and> healthyZones (health (playerCarRef clientHit))
   \<and> healthyZones (health (playerCarRef (foldl applyOp clientHit
        [Receive (Players [snapshotBad]), Collide hitEnv])))
   \<and> health (playerCarRef (applyOp clientHit (Collide hitEnv)))
       = \<lparr>front = 9865 / 100, rear = 100, left = 100, right = 100\<rparr>
   \<and> map (\<lambda>e. (health (current (snd e)), health (target (snd e))))
        (otherPlayersRef (applyOp clientHit (Collide hitEnv)))
       = [(\<lparr>front = 100, rear = 0, left = 100, right = 100\<rparr>,
           \<lparr>front = 100, rear = 0, left = 100, right = 100\<rparr>)]"
proof -
  have h: "healthyClient clientHit"
    by (simp add: clientHit_def healthyClient_def healthyRecord_def healthyZones_def
        initialClient_def carA_def createCar_def newInterpolatedCar_def playerStateToCar_def
        snapshotD_def snapshotA_def)
  then have hp: "healthyZones (health (playerCarRef clientHit))"
    by (simp add: healthyClient_def)
  have o: "list_all healthyOp [Collide hitEnv, Interpolate, Receive (PlayerJoined snapshotA),
        Tick forwardInput hitEnv, Walls 0, Integrate forwardInput]"
    by (simp add: snapshotA_def fullHealth_def healthyZones_def)
  show ?thesis
    using health_zones_bounded[of 0 0 "''#e74c3c''" 0 False snapshotD clientHit
        "[Collide hitEnv, Interpolate, Receive (PlayerJoined snapshotA),
          Tick forwardInput hitEnv, Walls 0, Integrate forwardInput]"]
      health_zones_bounded[of 0 0 "''#e74c3c''" 0 False snapshotD clientHit
        "[Receive (Players [snapshotBad]), Collide hitEnv]"]
      h hp o clientHit_collide
    by blast
qed

end
